theory Spec2Isabelle
  imports Main "HOL-Library.Sublist" "HOL-Library.AList" "HOL-Library.Multiset"
begin

text \<open>
  The build command of \<^verbatim>\<open>svg-icons-cli\<close> (\<^verbatim>\<open>src/index.js\<close>): \<^verbatim>\<open>iconName\<close>, \<^verbatim>\<open>writeIfChanged\<close>,
  \<^verbatim>\<open>generateSvgSprite\<close> and \<^verbatim>\<open>build\<close> as functions on an explicit file system, with the
  libraries they call (glob, the HTML parser and its serialiser, the optimizer) as
  parameters. What Node and \<^verbatim>\<open>node-html-parser\<close> do where a property depends on it
  (\<^verbatim>\<open>path.join\<close>, \<^verbatim>\<open>JSON.stringify\<close>, \<^verbatim>\<open>setAttribute\<close>, \<^verbatim>\<open>toString\<close>) is written out.
\<close>

section \<open>Strings\<close>

text \<open>
  A JavaScript string is modelled as a \<^typ>\<open>string\<close>; a \<^typ>\<open>char\<close> stands for a
  UTF-16 code unit below 256. File contents are the strings that
  \<^verbatim>\<open>fs.readFile(path, "utf8")\<close> returns and \<^verbatim>\<open>fs.writeFile(path, s, "utf8")\<close> stores.
\<close>

text \<open>\<^verbatim>\<open>s.includes(sub)\<close>: \<open>sub\<close> occurs in \<open>s\<close> as a contiguous substring.\<close>

fun includes_str :: "string \<Rightarrow> string \<Rightarrow> bool" where
  "includes_str [] sub = (sub = [])"
| "includes_str (c # cs) sub = (prefix sub (c # cs) \<or> includes_str cs sub)"

text \<open>The code units below 256 that \<^verbatim>\<open>String.prototype.trim\<close> strips: TAB, LF, VT, FF, CR,
  space and the no-break space.\<close>

definition is_ws :: "char \<Rightarrow> bool" where
  "is_ws c = (c = CHR 0x09 \<or> c = CHR 0x0A \<or> c = CHR 0x0B \<or> c = CHR 0x0C \<or> c = CHR 0x0D
     \<or> c = CHR 0x20 \<or> c = CHR 0xA0)"

definition trim :: "string \<Rightarrow> string" where
  "trim s = rev (dropWhile is_ws (rev (dropWhile is_ws s)))"

text \<open>\<^verbatim>\<open>array.join(sep)\<close> on an array of strings.\<close>

fun join :: "string \<Rightarrow> string list \<Rightarrow> string" where
  "join sep [] = []"
| "join sep [x] = x"
| "join sep (x # y # ys) = x @ sep @ join sep (y # ys)"

text \<open>\<^verbatim>\<open>JSON.stringify\<close> on a string: the quotation mark and the backslash are escaped with a
  backslash, the control characters below 0x20 get their short escape or \<^verbatim>\<open>\u00XX\<close> in
  lower-case hexadecimal, and every other code unit stands for itself.\<close>

definition hex_digit :: "nat \<Rightarrow> char" where
  "hex_digit n = ''0123456789abcdef'' ! (n mod 16)"

definition json_escape :: "char \<Rightarrow> string" where
  "json_escape c =
     (if c = CHR 0x22 then [CHR 0x5C, CHR 0x22]
      else if c = CHR 0x5C then [CHR 0x5C, CHR 0x5C]
      else if c = CHR 0x08 then [CHR 0x5C, CHR ''b'']
      else if c = CHR 0x0C then [CHR 0x5C, CHR ''f'']
      else if c = CHR 0x0A then [CHR 0x5C, CHR ''n'']
      else if c = CHR 0x0D then [CHR 0x5C, CHR ''r'']
      else if c = CHR 0x09 then [CHR 0x5C, CHR ''t'']
      else if (of_char c :: nat) < 0x20
        then [CHR 0x5C, CHR ''u'', CHR ''0'', CHR ''0'',
              hex_digit (of_char c div 16), hex_digit (of_char c mod 16)]
      else [c])"

definition JSON_stringify :: "string \<Rightarrow> string" where
  "JSON_stringify s = CHR 0x22 # concat (map json_escape s) @ [CHR 0x22]"

text \<open>
  \<^verbatim>\<open>path.join(dir, name)\<close> of Node on POSIX: the arguments that are not empty are joined
  with a slash and the result is normalised. \<^verbatim>\<open>normalize\<close> cuts the path at its slashes,
  drops the empty segments and the segments \<^verbatim>\<open>.\<close>, lets a segment \<^verbatim>\<open>..\<close> cancel the
  segment before it (above the start of a relative path it is kept, above the root it is
  dropped), and puts the segments together again, with the leading slash of an absolute
  path and with one trailing slash when the path ended in a slash. So
  \<^verbatim>\<open>path.join("/app/x/", "sprite.svg")\<close> and \<^verbatim>\<open>path.join("/app/x", "sprite.svg")\<close> are the same
  path.
\<close>

definition split_path :: "string \<Rightarrow> string list" where
  "split_path path =
     foldr (\<lambda>c segs. if c = CHR ''/'' then [] # segs else (c # hd segs) # tl segs) path [[]]"

fun normalizeString :: "bool \<Rightarrow> string list \<Rightarrow> string list \<Rightarrow> string list" where
  "normalizeString allowAboveRoot res [] = res"
| "normalizeString allowAboveRoot res (seg # segs) =
     normalizeString allowAboveRoot
       (if seg = [] \<or> seg = ''.'' then res
        else if seg = ''..'' then
          (if res \<noteq> [] \<and> last res \<noteq> ''..'' then butlast res
           else if allowAboveRoot then res @ [''..''] else res)
        else res @ [seg])
       segs"

definition normalize :: "string \<Rightarrow> string" where
  "normalize path =
     (if path = [] then ''.''
      else
        let isAbsolute = (hd path = CHR ''/'');
            trailingSeparator = (last path = CHR ''/'');
            segs = normalizeString (\<not> isAbsolute) [] (split_path path)
        in if segs = [] then
             (if isAbsolute then ''/'' else if trailingSeparator then ''./'' else ''.'')
           else (if isAbsolute then ''/'' else []) @ join ''/'' segs
                  @ (if trailingSeparator then ''/'' else []))"

definition path_join :: "string \<Rightarrow> string \<Rightarrow> string" where
  "path_join dir name =
     normalize (if dir = [] then name else if name = [] then dir else dir @ ''/'' @ name)"

text \<open>The part of a path after its last slash, and what makes it the name of a file: one
  path segment that is neither empty nor a dot segment.\<close>

definition basename :: "string \<Rightarrow> string" where
  "basename path = rev (takeWhile (\<lambda>c. c \<noteq> CHR ''/'') (rev path))"

definition plain_name :: "string \<Rightarrow> bool" where
  "plain_name name = (name \<noteq> [] \<and> CHR ''/'' \<notin> set name \<and> name \<noteq> ''.'' \<and> name \<noteq> ''..'')"

section \<open>The file list\<close>

text \<open>
  \<^verbatim>\<open>glob.sync("**/*.svg", { cwd: inputDir }).sort((a, b) => a.localeCompare(b))\<close>: what the
  glob finds and how two paths compare are the libraries' and are parameters.
  \<^verbatim>\<open>Array.prototype.sort\<close> is stable, so for a consistent comparison its result is the one
  that insertion from the right computes.
\<close>

fun insert_by :: "(string \<Rightarrow> string \<Rightarrow> int) \<Rightarrow> string \<Rightarrow> string list \<Rightarrow> string list" where
  "insert_by compare a [] = [a]"
| "insert_by compare a (b # bs) =
     (if compare a b \<le> 0 then a # b # bs else b # insert_by compare a bs)"

definition sort_files :: "(string \<Rightarrow> string \<Rightarrow> int) \<Rightarrow> string list \<Rightarrow> string list" where
  "sort_files compare found = foldr (insert_by compare) found []"

section \<open>Icon names\<close>

text \<open>\<^verbatim>\<open>function iconName(file) { return file.replace(/\.svg$/, ""); }\<close>: the pattern is
  anchored at the end of the string, so one trailing \<^verbatim>\<open>.svg\<close> is removed when there is one
  and the string is returned as it is otherwise.\<close>

definition iconName :: "string \<Rightarrow> string" where
  "iconName file =
     (if suffix ''.svg'' file then take (length file - 4) file else file)"

section \<open>The parsed document\<close>

text \<open>
  The element that \<^verbatim>\<open>root.querySelector("svg")\<close> returns, as far as the code touches it:
  its tag name, its attributes in document order, and its children (kept as markup; the
  code never looks inside).
\<close>

record element =
  tagName :: string
  attrs :: "(string \<times> string) list"
  innerHTML :: string

text \<open>
  \<^verbatim>\<open>el.setAttribute(key, value)\<close> of \<^verbatim>\<open>node-html-parser\<close> looks for the first attribute
  whose name is \<open>key\<close> up to letter case, replaces its value and keeps its name, and
  appends the attribute under the name \<open>key\<close> when there is none.
  \<^verbatim>\<open>el.removeAttribute(key)\<close> drops the attribute of exactly this name.
  \<^verbatim>\<open>String.prototype.toLowerCase\<close> on code units below 256 moves the letters A to Z and the
  upper-case letters of Latin-1 by 32.
\<close>

definition to_lower :: "char \<Rightarrow> char" where
  "to_lower c =
     (let n = (of_char c :: nat) in
      if (0x41 \<le> n \<and> n \<le> 0x5A) \<or> (0xC0 \<le> n \<and> n \<le> 0xDE \<and> n \<noteq> 0xD7)
      then char_of (n + 0x20) else c)"

definition toLowerCase :: "string \<Rightarrow> string" where
  "toLowerCase s = map to_lower s"

fun update_attr :: "string \<Rightarrow> string \<Rightarrow> (string \<times> string) list \<Rightarrow> (string \<times> string) list" where
  "update_attr key v [] = [(key, v)]"
| "update_attr key v ((k, x) # kvs) =
     (if toLowerCase k = toLowerCase key then (k, v) # kvs else (k, x) # update_attr key v kvs)"

definition setAttribute :: "string \<Rightarrow> string \<Rightarrow> element \<Rightarrow> element" where
  "setAttribute key v el = el\<lparr>attrs := update_attr key v (attrs el)\<rparr>"

definition removeAttribute :: "string \<Rightarrow> element \<Rightarrow> element" where
  "removeAttribute key el = el\<lparr>attrs := AList.delete key (attrs el)\<rparr>"

text \<open>
  \<^verbatim>\<open>el.toString()\<close> of \<^verbatim>\<open>node-html-parser\<close> for an element that is not a void element and
  whose attributes have been set or removed: \<^verbatim>\<open><tag attributes>children</tag>\<close>, where the
  attributes are written again from their names and values, separated by one space. A
  value goes through \<^verbatim>\<open>quoteAttribute\<close>,
  \<^verbatim>\<open>JSON.stringify(attr.replace(/"/g, "&quot;")).replace(/\\t/g, "\t").replace(/\\n/g, "\n").replace(/\\r/g, "\r").replace(/\\/g, "")\<close>:
  double quotes around the value, a double quote inside written \<^verbatim>\<open>&quot;\<close>, the escapes of
  tab, line feed and carriage return undone and every backslash that is left removed. An
  attribute whose quoted value is \<^verbatim>\<open>""\<close> is written as its name alone.
\<close>

fun replace_pair :: "char \<Rightarrow> char \<Rightarrow> char \<Rightarrow> string \<Rightarrow> string" where
  "replace_pair a b r (c # d # cs) =
     (if c = a \<and> d = b then r # replace_pair a b r cs else c # replace_pair a b r (d # cs))"
| "replace_pair a b r cs = cs"

definition quoteAttribute :: "string \<Rightarrow> string" where
  "quoteAttribute attr =
     filter (\<lambda>c. c \<noteq> CHR 0x5C)
       (replace_pair (CHR 0x5C) (CHR ''r'') (CHR 0x0D)
         (replace_pair (CHR 0x5C) (CHR ''n'') (CHR 0x0A)
           (replace_pair (CHR 0x5C) (CHR ''t'') (CHR 0x09)
             (JSON_stringify
               (concat (map (\<lambda>c. if c = CHR 0x22 then ''&quot;'' else [c]) attr))))))"

definition attribute_text :: "string \<Rightarrow> string \<Rightarrow> string" where
  "attribute_text name v =
     (let val = quoteAttribute v
      in if val = [CHR 0x22, CHR 0x22] then name else name @ ''='' @ val)"

definition rawAttrs :: "element \<Rightarrow> string" where
  "rawAttrs el = join '' '' (map (\<lambda>(name, v). attribute_text name v) (attrs el))"

definition element_toString :: "element \<Rightarrow> string" where
  "element_toString el =
     ''<'' @ tagName el @ (if rawAttrs el = [] then [] else '' '' @ rawAttrs el) @ ''>''
       @ innerHTML el @ ''</'' @ tagName el @ ''>''"

text \<open>
  The libraries the code calls are parameters of the model:
  \<^item> \<open>parse_svg input\<close> is \<^verbatim>\<open>parse(input).querySelector("svg")\<close>, \<open>None\<close> for \<^verbatim>\<open>null\<close>; the
    children of the element found are kept as the markup that the parser writes for them;
  \<^item> \<open>toString el\<close> is the serialisation \<^verbatim>\<open>el.toString()\<close>, which is \<open>element_toString\<close>
    for \<^verbatim>\<open>node-html-parser\<close>;
  \<^item> \<open>optimize doc\<close> is \<^verbatim>\<open>optimize(doc, config).data\<close> with the configuration that
    \<^verbatim>\<open>loadConfig()\<close> found, \<open>None\<close> when the optimizer throws.
\<close>

record env =
  parse_svg :: "string \<Rightarrow> element option"
  toString :: "element \<Rightarrow> string"
  optimize :: "string \<Rightarrow> string option"

section \<open>The file system and the effects of a run\<close>

datatype event =
    Cancel string
  | Mkdir string
  | ReadFile string
  | Parse string
  | Optimize
  | WriteFile string string

datatype error =
    NoSvgElement
  | ReadError string
  | OptimizeError
  | WriteError string
  | MkdirError string

text \<open>
  \<open>fs\<close> maps a path to the content of the file that can be read there; the paths are the
  normalised paths that \<^verbatim>\<open>path.join\<close> returns, and two of them are two files (no links).
  \<open>unwritable\<close> holds the paths that cannot be written or created: \<^verbatim>\<open>fs.writeFile\<close> is rejected
  on such a file path (permissions, a missing parent directory), and \<^verbatim>\<open>mkdirSync\<close> throws on
  such a directory path (a file in the way, permissions) unless the directory is there
  already. \<open>trace\<close> records the effects in the order in which they happen.
\<close>

record world =
  fs :: "string \<rightharpoonup> string"
  unwritable :: "string set"
  trace :: "event list"

definition emit :: "event \<Rightarrow> world \<Rightarrow> world" where
  "emit e w = w\<lparr>trace := trace w @ [e]\<rparr>"

text \<open>
  \<^verbatim>\<open>mkdirSync(dir, { recursive: true })\<close> returns when the directory exists or can be
  created, and throws otherwise. A directory in which a file can be read exists.
\<close>

definition holds_file :: "world \<Rightarrow> string \<Rightarrow> bool" where
  "holds_file w dir =
     (\<exists>p \<in> dom (fs w). plain_name (basename p) \<and> path_join dir (basename p) = p)"

definition mkdirSync :: "string \<Rightarrow> world \<Rightarrow> (error + unit) \<times> world" where
  "mkdirSync dir w =
     (if dir \<in> unwritable w \<and> \<not> holds_file w dir
      then (Inl (MkdirError dir), emit (Mkdir dir) w)
      else (Inr (), emit (Mkdir dir) w))"

text \<open>\<^verbatim>\<open>await fs.readFile(path, "utf8").catch(() => "")\<close>\<close>

definition content_or_empty :: "world \<Rightarrow> string \<Rightarrow> string" where
  "content_or_empty w p = (case fs w p of None \<Rightarrow> [] | Some c \<Rightarrow> c)"

definition readFileOrEmpty :: "string \<Rightarrow> world \<Rightarrow> string \<times> world" where
  "readFileOrEmpty p w = (content_or_empty w p, emit (ReadFile p) w)"

text \<open>\<^verbatim>\<open>await fs.writeFile(path, content, "utf8")\<close>\<close>

definition writeFile :: "string \<Rightarrow> string \<Rightarrow> world \<Rightarrow> (error + unit) \<times> world" where
  "writeFile p c w =
     (if p \<in> unwritable w then (Inl (WriteError p), w)
      else (Inr (), emit (WriteFile p c) (w\<lparr>fs := (fs w)(p \<mapsto> c)\<rparr>)))"

text \<open>
  \<^verbatim>\<open>
  async function writeIfChanged(filepath, newContent) {
    const currentContent = await fs.readFile(filepath, "utf8").catch(() => "");
    if (currentContent === newContent) return false;
    await fs.writeFile(filepath, newContent, "utf8");
    return true;
  }
  \<close>
\<close>

definition writeIfChanged :: "string \<Rightarrow> string \<Rightarrow> world \<Rightarrow> (error + bool) \<times> world" where
  "writeIfChanged filepath newContent w =
     (case readFileOrEmpty filepath w of (currentContent, w1) \<Rightarrow>
        if currentContent = newContent then (Inr False, w1)
        else (case writeFile filepath newContent w1 of
                (Inl e, w2) \<Rightarrow> (Inl e, w2)
              | (Inr u, w2) \<Rightarrow> (Inr True, w2)))"

section \<open>The sprite\<close>

text \<open>The body of the callback in \<^verbatim>\<open>generateSvgSprite\<close>, from the element found to the
  string returned.\<close>

definition symbolElement :: "string \<Rightarrow> element \<Rightarrow> element" where
  "symbolElement file svg =
     removeAttribute ''height''
       (removeAttribute ''width''
         (removeAttribute ''version''
           (removeAttribute ''xmlns:xlink''
             (removeAttribute ''xmlns''
               (setAttribute ''id'' (iconName file) (svg\<lparr>tagName := ''symbol''\<rparr>))))))"

definition toSymbol :: "env \<Rightarrow> string \<Rightarrow> element \<Rightarrow> string" where
  "toSymbol env file svg = trim (toString env (symbolElement file svg))"

text \<open>
  \<^verbatim>\<open>Promise.all(files.map(async (file) => ...))\<close>: every file is read and parsed, the
  results come in the order of \<open>files\<close>, and one failure fails the whole. The tasks only
  read; the model runs them in list order and reports the first failure in that order.
\<close>

fun symbols_of :: "env \<Rightarrow> string \<Rightarrow> string list \<Rightarrow> world \<Rightarrow> (error + string list) \<times> world" where
  "symbols_of env inputDir [] w = (Inr [], w)"
| "symbols_of env inputDir (file # files) w =
     (let p = path_join inputDir file; w1 = emit (ReadFile p) w in
      case fs w p of
        None \<Rightarrow> (Inl (ReadError p), w1)
      | Some input \<Rightarrow>
          (case parse_svg env input of
             None \<Rightarrow> (Inl NoSvgElement, emit (Parse file) w1)
           | Some svg \<Rightarrow>
               (case symbols_of env inputDir files (emit (Parse file) w1) of
                  (Inl e, w2) \<Rightarrow> (Inl e, w2)
                | (Inr symbols, w2) \<Rightarrow> (Inr (toSymbol env file svg # symbols), w2))))"

definition xml_declaration :: string where
  \<open>xml_declaration = ''<?xml version="1.0" encoding="UTF-8"?>''\<close>

definition generated_comment :: string where
  \<open>generated_comment = ''<!-- This file is generated by npm run build:icons -->''\<close>

definition svg_open :: string where
  \<open>svg_open = ''<svg xmlns="http://www.w3.org/2000/svg" xmlns:xlink="http://www.w3.org/1999/xlink" width="0" height="0">''\<close>

definition sprite_lines :: "string list \<Rightarrow> string list" where
  "sprite_lines symbols =
     [xml_declaration, generated_comment, svg_open, ''<defs>''] @ symbols
       @ [''</defs>'', ''</svg>'', '''']"

definition sprite_document :: "string list \<Rightarrow> string" where
  "sprite_document symbols = join ''\<newline>'' (sprite_lines symbols)"

definition generateSvgSprite ::
    "env \<Rightarrow> string list \<Rightarrow> string \<Rightarrow> string \<Rightarrow> bool \<Rightarrow> world \<Rightarrow> (error + bool) \<times> world" where
  "generateSvgSprite env files inputDir outputPath shouldOptimize w =
     (case symbols_of env inputDir files w of
        (Inl e, w1) \<Rightarrow> (Inl e, w1)
      | (Inr symbols, w1) \<Rightarrow>
          if shouldOptimize then
            (case optimize env (sprite_document symbols) of
               None \<Rightarrow> (Inl OptimizeError, emit Optimize w1)
             | Some output \<Rightarrow> writeIfChanged outputPath output (emit Optimize w1))
          else writeIfChanged outputPath (sprite_document symbols) w1)"

section \<open>The build\<close>

text \<open>The options of \<^verbatim>\<open>icons build\<close> once flags and prompts are resolved.\<close>

record config =
  inputDir :: string
  inputDirRelative :: string
  outputDir :: string
  spriteDir :: string
  shouldOptimize :: bool

datatype outcome =
    Exited int
  | Threw error
  | UpToDate
  | Generated bool bool bool

definition spriteFilepath :: "config \<Rightarrow> string" where
  "spriteFilepath cfg = path_join (spriteDir cfg) ''sprite.svg''"

definition typeOutputFilepath :: "config \<Rightarrow> string" where
  "typeOutputFilepath cfg = path_join (outputDir cfg) ''name.d.ts''"

definition readmeFilepath :: "config \<Rightarrow> string" where
  "readmeFilepath cfg = path_join (outputDir cfg) ''README.md''"

definition spriteUpToDate :: "string list \<Rightarrow> string \<Rightarrow> bool" where
  "spriteUpToDate iconNames currentSprite =
     list_all (\<lambda>name. includes_str currentSprite (''id='' @ name)) iconNames"

definition typesUpToDate :: "string list \<Rightarrow> string \<Rightarrow> bool" where
  "typesUpToDate iconNames currentTypes =
     list_all (\<lambda>name. includes_str currentTypes (CHR 0x22 # name @ [CHR 0x22])) iconNames"

definition typeOutputContent :: "string list \<Rightarrow> string" where
  "typeOutputContent iconNames =
     ''// This file is generated by npm run build:icons\<newline>  \<newline>  export type IconName =\<newline>  ''
     @ [CHR 0x09] @ ''| ''
     @ join (''\<newline>'' @ [CHR 0x09] @ ''| '') (map JSON_stringify iconNames)
     @ '';\<newline>  ''"

definition readmeContent :: string where
  "readmeContent =
     ''# Icons\<newline>  \<newline>  This directory contains SVG icons that are used by the app.\<newline>  \<newline>  Everything in this directory is generated by running `icons build`.\<newline>  ''"

text \<open>
  \<^verbatim>\<open>build\<close> from the point where \<open>files\<close>, the sorted result of the glob, is known.
  \<^verbatim>\<open>process.exit(1)\<close> is the outcome \<open>Exited 1\<close>, an exception or a rejected promise is \<open>Threw\<close>, the
  early \<^verbatim>\<open>return\<close> is \<open>UpToDate\<close>, and \<open>Generated\<close> carries \<^verbatim>\<open>spriteChanged\<close>,
  \<^verbatim>\<open>typesChanged\<close> and \<^verbatim>\<open>readmeChanged\<close>. Log lines other than the cancel message are not
  recorded.
\<close>

definition build :: "env \<Rightarrow> config \<Rightarrow> string list \<Rightarrow> world \<Rightarrow> outcome \<times> world" where
  "build env cfg files w =
     (if files = [] then
        (Exited 1, emit (Cancel (''No SVG files found in '' @ inputDirRelative cfg)) w)
      else
        (case mkdirSync (outputDir cfg) w of
           (Inl e, w0) \<Rightarrow> (Threw e, w0)
         | (Inr u, w0) \<Rightarrow>
        (case readFileOrEmpty (spriteFilepath cfg) w0 of
           (currentSprite, w1) \<Rightarrow>
        (case readFileOrEmpty (typeOutputFilepath cfg) w1 of
           (currentTypes, w2) \<Rightarrow>
        let iconNames = map iconName files in
        if spriteUpToDate iconNames currentSprite \<and> typesUpToDate iconNames currentTypes
        then (UpToDate, w2)
        else
          (case generateSvgSprite env files (inputDir cfg) (spriteFilepath cfg)
                  (shouldOptimize cfg) w2 of
             (Inl e, w3) \<Rightarrow> (Threw e, w3)
           | (Inr spriteChanged, w3) \<Rightarrow>
          (case writeIfChanged (typeOutputFilepath cfg) (typeOutputContent iconNames) w3 of
             (Inl e, w4) \<Rightarrow> (Threw e, w4)
           | (Inr typesChanged, w4) \<Rightarrow>
          (case writeIfChanged (readmeFilepath cfg) readmeContent w4 of
             (Inl e, w5) \<Rightarrow> (Threw e, w5)
           | (Inr readmeChanged, w5) \<Rightarrow>
               (Generated spriteChanged typesChanged readmeChanged, w5))))))))"

text \<open>The events of a run from \<open>w\<close> to \<open>w'\<close>, and the file writes among some events.\<close>

definition events_since :: "world \<Rightarrow> world \<Rightarrow> event list" where
  "events_since w w' = drop (length (trace w)) (trace w')"

fun is_write :: "event \<Rightarrow> bool" where
  "is_write (WriteFile p c) = True"
| "is_write e = False"

fun is_parse :: "event \<Rightarrow> bool" where
  "is_parse (Parse f) = True"
| "is_parse e = False"

fun is_mkdir :: "event \<Rightarrow> bool" where
  "is_mkdir (Mkdir d) = True"
| "is_mkdir e = False"

section \<open>Auxiliary notions for the proofs\<close>

text \<open>The content that \<^verbatim>\<open>generateSvgSprite\<close> hands to \<^verbatim>\<open>writeIfChanged\<close>, or the error that
  keeps it from getting there.\<close>

definition sprite_content :: "env \<Rightarrow> config \<Rightarrow> string list \<Rightarrow> world \<Rightarrow> error + string" where
  "sprite_content env cfg files w =
     (case fst (symbols_of env (inputDir cfg) files w) of
        Inl e \<Rightarrow> Inl e
      | Inr symbols \<Rightarrow>
          if shouldOptimize cfg then
            (case optimize env (sprite_document symbols) of
               None \<Rightarrow> Inl OptimizeError
             | Some output \<Rightarrow> Inr output)
          else Inr (sprite_document symbols))"

text \<open>The three calls of \<^verbatim>\<open>writeIfChanged\<close> that end a build, given the sprite content.\<close>

definition write_outputs :: "config \<Rightarrow> string list \<Rightarrow> string \<Rightarrow> world \<Rightarrow> outcome \<times> world" where
  "write_outputs cfg files output w =
     (case writeIfChanged (spriteFilepath cfg) output w of
        (Inl e, w3) \<Rightarrow> (Threw e, w3)
      | (Inr spriteChanged, w3) \<Rightarrow>
     (case writeIfChanged (typeOutputFilepath cfg) (typeOutputContent (map iconName files)) w3 of
        (Inl e, w4) \<Rightarrow> (Threw e, w4)
      | (Inr typesChanged, w4) \<Rightarrow>
     (case writeIfChanged (readmeFilepath cfg) readmeContent w4 of
        (Inl e, w5) \<Rightarrow> (Threw e, w5)
      | (Inr readmeChanged, w5) \<Rightarrow>
          (Generated spriteChanged typesChanged readmeChanged, w5))))"

text \<open>An attribute value that \<^verbatim>\<open>quoteAttribute\<close> only puts in double quotes: it is not empty
  and has no double quote, no backslash and no control character.\<close>

definition plain_value :: "string \<Rightarrow> bool" where
  "plain_value v = (v \<noteq> [] \<and>
     list_all (\<lambda>c. c \<noteq> CHR 0x22 \<and> c \<noteq> CHR 0x5C \<and> 0x20 \<le> (of_char c :: nat)) v)"






section \<open>Example inputs\<close>

text \<open>What the parser finds in four small documents; the child \<^verbatim>\<open><path d="M0 0"/>\<close> is
  written \<^verbatim>\<open><path d="M0 0"></path>\<close> by the parser.\<close>

definition example_parse :: "string \<Rightarrow> element option" where
  \<open>example_parse input =
     (if input = ''<svg width="10" viewBox="0 0 10 10"><path d="M0 0"/></svg>'' then
        Some \<lparr>tagName = ''svg'', attrs = [(''width'', ''10''), (''viewBox'', ''0 0 10 10'')],
              innerHTML = ''<path d="M0 0"></path>''\<rparr>
      else if input = ''<svg><title>id=t</title></svg>'' then
        Some \<lparr>tagName = ''svg'', attrs = [], innerHTML = ''<title>id=t</title>''\<rparr>
      else if input = ''<svg></svg>'' then
        Some \<lparr>tagName = ''svg'', attrs = [], innerHTML = []\<rparr>
      else None)\<close>

definition example_env :: env where
  "example_env =
     \<lparr>parse_svg = example_parse, toString = element_toString, optimize = (\<lambda>doc. None)\<rparr>"

definition example_cfg :: config where
  "example_cfg = \<lparr>inputDir = ''/app/svg'', inputDirRelative = ''svg'', outputDir = ''/app/out'',
     spriteDir = ''/app/out'', shouldOptimize = False\<rparr>"

text \<open>A project with three source files and no output yet.\<close>

definition example_world :: world where
  \<open>example_world =
     \<lparr>fs = [''/app/svg/a.svg'' \<mapsto> ''<svg width="10" viewBox="0 0 10 10"><path d="M0 0"/></svg>'',
            ''/app/svg/bad.svg'' \<mapsto> ''<p>no icon</p>'',
            ''/app/svg/t.svg'' \<mapsto> ''<svg><title>id=t</title></svg>''],
      unwritable = {}, trace = []\<rparr>\<close>


text \<open>The project of \<open>example_world\<close> where the output directory cannot be created.\<close>

definition blocked_world :: world where
  "blocked_world = example_world\<lparr>unwritable := {''/app/out''}\<rparr>"

text \<open>A project whose output files were left by an earlier run, with unquoted ids, and whose
  source \<^verbatim>\<open>b.svg\<close> has since lost its \<^verbatim>\<open>svg\<close> element.\<close>

definition stale_world :: world where
  \<open>stale_world =
     \<lparr>fs = [''/app/out/sprite.svg'' \<mapsto> ''<symbol id=a></symbol><symbol id=b></symbol>'',
            ''/app/out/name.d.ts'' \<mapsto> ''"a" | "b"'',
            ''/app/svg/a.svg'' \<mapsto> ''<svg width="10" viewBox="0 0 10 10"><path d="M0 0"/></svg>'',
            ''/app/svg/b.svg'' \<mapsto> ''<p>no icon</p>''],
      unwritable = {}, trace = []\<rparr>\<close>

text \<open>A comparison of paths by the code of their first character.\<close>

definition example_compare :: "string \<Rightarrow> string \<Rightarrow> int" where
  "example_compare a b =
     (case a of [] \<Rightarrow> 0 | c # cs \<Rightarrow> of_char c) - (case b of [] \<Rightarrow> 0 | c # cs \<Rightarrow> of_char c)"

section \<open>Basic facts\<close>


text \<open>Joining a directory and a plain file name gives a path that ends in this name.\<close>

lemma split_path_Nil [simp]: "split_path [] = [[]]"
  by (simp add: split_path_def)

lemma split_path_Cons:
  "split_path (c # cs) =
     (if c = CHR ''/'' then [] # split_path cs else (c # hd (split_path cs)) # tl (split_path cs))"
  by (simp add: split_path_def)

lemma split_path_ne [simp]: "split_path s \<noteq> []"
  by (induction s) (simp_all add: split_path_Cons)

lemma split_path_plain: "CHR ''/'' \<notin> set name \<Longrightarrow> split_path name = [name]"
  by (induction name) (auto simp: split_path_Cons)

lemma split_path_append:
  "split_path (a @ CHR ''/'' # b) = split_path a @ split_path b"
proof (induction a)
  case Nil
  then show ?case by (simp add: split_path_Cons)
next
  case (Cons c a)
  then show ?case
    by (cases "split_path a") (simp_all add: split_path_Cons)
qed

lemma normalizeString_append:
  "normalizeString b res (xs @ ys) = normalizeString b (normalizeString b res xs) ys"
  by (induction xs arbitrary: res) simp_all

lemma join_snoc: "join sep (xs @ [x]) = (if xs = [] then x else join sep xs @ sep @ x)"
proof (induction xs)
  case Nil
  then show ?case by simp
next
  case (Cons a xs)
  then show ?case by (cases xs) simp_all
qed

lemma path_join_plain:
  assumes "plain_name name"
  shows "\<exists>pre. path_join dir name = pre @ name \<and> (pre = [] \<or> last pre = CHR ''/'')"
proof -
  from assms have n: "name \<noteq> []" "CHR ''/'' \<notin> set name" "name \<noteq> ''.''" "name \<noteq> ''..''"
    by (simp_all add: plain_name_def)
  define joined where "joined = (if dir = [] then name else dir @ ''/'' @ name)"
  have j: "path_join dir name = normalize joined"
    using n by (simp add: path_join_def joined_def)
  have jne: "joined \<noteq> []" using n by (simp add: joined_def)
  have lastj: "last joined = last name" using n by (simp add: joined_def)
  with n have nt: "last joined \<noteq> CHR ''/''" using last_in_set by metis
  have "split_path joined = (if dir = [] then [] else split_path dir) @ [name]"
    using n by (simp add: joined_def split_path_append split_path_plain)
  then obtain segs where sp: "split_path joined = segs @ [name]" ..
  have ns: "normalizeString b [] (split_path joined) = normalizeString b [] segs @ [name]" for b
    unfolding sp normalizeString_append using n by simp
  show ?thesis
    unfolding j normalize_def using jne nt
    by (simp add: Let_def ns join_snoc)
qed

lemma last_path_join: "plain_name name \<Longrightarrow> last (path_join d name) = last name"
  using path_join_plain[of name d] by (auto simp: plain_name_def)

lemma basename_path_join: "plain_name name \<Longrightarrow> basename (path_join d name) = name"
proof -
  assume p: "plain_name name"
  from path_join_plain[OF p, of d] obtain pre where
    e: "path_join d name = pre @ name" and l: "pre = [] \<or> last pre = CHR ''/''" by blast
  have all: "\<forall>c \<in> set (rev name). c \<noteq> CHR ''/''" using p by (auto simp: plain_name_def)
  then have tw: "takeWhile (\<lambda>c. c \<noteq> CHR ''/'') (rev name) = rev name"
    by (simp add: takeWhile_eq_all_conv)
  show ?thesis
  proof (cases "pre = []")
    case True
    show ?thesis unfolding basename_def e True append_Nil tw by simp
  next
    case False
    with l obtain pre' where pre: "pre = pre' @ ''/''" by (metis append_butlast_last_id)
    have "takeWhile (\<lambda>c. c \<noteq> CHR ''/'') (rev name @ CHR ''/'' # rev pre') = rev name"
      using all by (simp add: takeWhile_tail)
    then show ?thesis unfolding basename_def e pre by simp
  qed
qed

lemma plain_names [simp]:
  "plain_name ''sprite.svg''" "plain_name ''name.d.ts''" "plain_name ''README.md''"
  by (simp_all add: plain_name_def)

text \<open>An output directory given with a trailing slash, and a sprite below the input
  directory, are the paths one expects.\<close>

lemma path_join_normalises:
  "path_join ''/app/x/'' ''sprite.svg'' = ''/app/x/sprite.svg''"
  "path_join ''/app/x'' ''sprite.svg'' = ''/app/x/sprite.svg''"
  "path_join ''/app/x'' ''out/sprite.svg'' = ''/app/x/out/sprite.svg''"
  "path_join ''/app/x/out'' ''sprite.svg'' = ''/app/x/out/sprite.svg''"
  "path_join ''/app'' ''x/'' = ''/app/x/''"
  by (simp_all add: path_join_def normalize_def split_path_def)

text \<open>The paths of the example project.\<close>

lemma example_joins:
  "path_join ''/app/svg'' ''a.svg'' = ''/app/svg/a.svg''"
  "path_join ''/app/svg'' ''b.svg'' = ''/app/svg/b.svg''"
  "path_join ''/app/svg'' ''bad.svg'' = ''/app/svg/bad.svg''"
  "path_join ''/app/svg'' ''t.svg'' = ''/app/svg/t.svg''"
  "path_join ''/app/out'' ''sprite.svg'' = ''/app/out/sprite.svg''"
  "path_join ''/app/out'' ''name.d.ts'' = ''/app/out/name.d.ts''"
  "path_join ''/app/out'' ''README.md'' = ''/app/out/README.md''"
  by (simp_all add: path_join_def normalize_def split_path_def)

lemma example_unwritable: "unwritable example_world = {}" "unwritable stale_world = {}"
  by (simp_all add: example_world_def stale_world_def)

lemma trace_emit [simp]: "trace (emit e w) = trace w @ [e]"
  and fs_emit [simp]: "fs (emit e w) = fs w"
  and unwritable_emit [simp]: "unwritable (emit e w) = unwritable w"
  by (simp_all add: emit_def)

lemma content_or_empty_emit [simp]: "content_or_empty (emit e w) p = content_or_empty w p"
  by (simp add: content_or_empty_def)

lemma events_since_append: "trace w' = trace w @ evs \<Longrightarrow> events_since w w' = evs"
  by (simp add: events_since_def)

lemma iconName_examples [simp]:
  "iconName ''a.svg'' = ''a''" "iconName ''b.svg'' = ''b''"
  "iconName ''t.svg'' = ''t''" "iconName ''bad.svg'' = ''bad''"
  by (simp_all add: iconName_def suffix_to_prefix)

text \<open>The three branches of \<^verbatim>\<open>writeIfChanged\<close>.\<close>

lemma writeIfChanged_cases:
  "writeIfChanged p c w =
     (if content_or_empty w p = c then (Inr False, emit (ReadFile p) w)
      else if p \<in> unwritable w then (Inl (WriteError p), emit (ReadFile p) w)
      else (Inr True, emit (WriteFile p c) ((emit (ReadFile p) w)\<lparr>fs := (fs w)(p \<mapsto> c)\<rparr>)))"
  by (simp add: writeIfChanged_def readFileOrEmpty_def writeFile_def)

text \<open>Reading and parsing the sources changes no file and writes nothing.\<close>

lemma symbols_of_frame:
  "symbols_of env d files w = (r, w') \<Longrightarrow>
     fs w' = fs w \<and> unwritable w' = unwritable w \<and>
     (\<exists>evs. trace w' = trace w @ evs \<and> filter is_write evs = [] \<and> filter is_mkdir evs = [])"
proof (induction files arbitrary: w r w')
  case Nil
  then show ?case by auto
next
  case (Cons f files)
  show ?case
  proof (cases "fs w (path_join d f)")
    case None
    with Cons.prems show ?thesis by (auto simp: Let_def)
  next
    case (Some input)
    show ?thesis
    proof (cases "parse_svg env input")
      case None
      with Some Cons.prems show ?thesis by (auto simp: Let_def)
    next
      case (Some svg)
      obtain r2 w2 where rec:
        "symbols_of env d files (emit (Parse f) (emit (ReadFile (path_join d f)) w)) = (r2, w2)"
        by (cases "symbols_of env d files (emit (Parse f) (emit (ReadFile (path_join d f)) w))")
      from Cons.IH[OF rec] have
        "fs w2 = fs w" "unwritable w2 = unwritable w"
        "\<exists>evs. trace w2 = trace w @ [ReadFile (path_join d f), Parse f] @ evs
           \<and> filter is_write evs = [] \<and> filter is_mkdir evs = []"
        by auto
      moreover have "w' = w2"
        using Cons.prems \<open>fs w (path_join d f) = Some input\<close> Some rec
        by (auto simp: Let_def split: sum.splits)
      ultimately show ?thesis by auto
    qed
  qed
qed

text \<open>The output directory exists when the manifest can be read.\<close>

lemma holds_file_emit [simp]: "holds_file (emit e w) dir = holds_file w dir"
  by (simp add: holds_file_def)

lemma holds_file_mono:
  "holds_file w dir \<Longrightarrow> (\<And>p. fs w p \<noteq> None \<Longrightarrow> fs v p \<noteq> None) \<Longrightarrow> holds_file v dir"
  unfolding holds_file_def by (meson domIff)

lemma holds_file_path_join:
  "plain_name name \<Longrightarrow> fs w (path_join dir name) = Some c \<Longrightarrow> holds_file w dir"
  unfolding holds_file_def
  by (rule bexI[of _ "path_join dir name"]) (auto simp: basename_path_join)

lemma mkdirSync_writable:
  "dir \<notin> unwritable w \<Longrightarrow> mkdirSync dir w = (Inr (), emit (Mkdir dir) w)"
  by (simp add: mkdirSync_def)

lemma mkdirSync_existing:
  "holds_file w dir \<Longrightarrow> mkdirSync dir w = (Inr (), emit (Mkdir dir) w)"
  by (simp add: mkdirSync_def)

lemma typesUpToDate_nonempty:
  "names \<noteq> [] \<Longrightarrow> typesUpToDate names currentTypes \<Longrightarrow> currentTypes \<noteq> []"
  by (cases names) (auto simp: typesUpToDate_def)

lemma mkdirSync_manifest:
  assumes "typesUpToDate (map iconName files) (content_or_empty w (typeOutputFilepath cfg))"
    and "files \<noteq> []"
  shows "mkdirSync (outputDir cfg) w = (Inr (), emit (Mkdir (outputDir cfg)) w)"
proof -
  from assms have "content_or_empty w (typeOutputFilepath cfg) \<noteq> []"
    using typesUpToDate_nonempty[of "map iconName files"] by simp
  then obtain c where "fs w (path_join (outputDir cfg) ''name.d.ts'') = Some c"
    by (auto simp: content_or_empty_def typeOutputFilepath_def split: option.splits)
  then have "holds_file w (outputDir cfg)"
    by (rule holds_file_path_join[rotated]) simp
  then show ?thesis by (rule mkdirSync_existing)
qed

text \<open>The early return of \<^verbatim>\<open>build\<close>.\<close>

lemma build_short_circuit:
  assumes "spriteUpToDate (map iconName files) (content_or_empty w (spriteFilepath cfg))"
      and "typesUpToDate (map iconName files) (content_or_empty w (typeOutputFilepath cfg))"
      and "files \<noteq> []"
  shows "build env cfg files w =
           (UpToDate, w\<lparr>trace := trace w @ [Mkdir (outputDir cfg), ReadFile (spriteFilepath cfg),
                                            ReadFile (typeOutputFilepath cfg)]\<rparr>)"
  using assms
  by (simp add: build_def mkdirSync_manifest[OF assms(2,3)] readFileOrEmpty_def emit_def
      content_or_empty_def)

text \<open>\<^verbatim>\<open>trim\<close> removes white space at both ends and nothing else.\<close>

lemma rev_split_while:
  "rev r = rev (dropWhile P r) @ rev (takeWhile P r)"
  by (metis rev_append takeWhile_dropWhile_id)

lemma trim_decomp:
  "s = takeWhile is_ws s @ trim s @ rev (takeWhile is_ws (rev (dropWhile is_ws s)))"
proof -
  let ?t = "dropWhile is_ws s"
  have "rev (rev ?t) = trim s @ rev (takeWhile is_ws (rev ?t))"
    unfolding trim_def by (rule rev_split_while)
  then have "takeWhile is_ws s @ ?t = takeWhile is_ws s @ trim s @ rev (takeWhile is_ws (rev ?t))"
    by simp
  then show ?thesis by simp
qed

lemma list_all_takeWhile: "list_all P (takeWhile P xs)"
  by (induction xs) auto

lemma list_all_revI: "list_all P ys \<Longrightarrow> list_all P (rev ys)"
  by (simp add: list_all_iff)

lemma trim_only_ws:
  "\<exists>pre post. s = pre @ trim s @ post \<and> list_all is_ws pre \<and> list_all is_ws post"
proof -
  have "list_all is_ws (takeWhile is_ws s)"
    by (rule list_all_takeWhile)
  moreover have "list_all is_ws (rev (takeWhile is_ws (rev (dropWhile is_ws s))))"
    by (rule list_all_revI) (rule list_all_takeWhile)
  ultimately show ?thesis using trim_decomp[of s] by blast
qed

lemma trim_ends:
  assumes "trim s \<noteq> []"
  shows "\<not> is_ws (hd (trim s)) \<and> \<not> is_ws (last (trim s))"
proof -
  let ?t = "dropWhile is_ws s"
  let ?u = "dropWhile is_ws (rev ?t)"
  have u: "?u \<noteq> []" using assms by (simp add: trim_def)
  have t: "?t \<noteq> []" using u by (metis dropWhile.simps(1) rev.simps(1))
  have "last (trim s) = hd ?u" using u by (simp add: trim_def last_rev)
  moreover have "\<not> is_ws (hd ?u)" using u by (rule hd_dropWhile)
  moreover have "hd (trim s) = last ?u" using u by (simp add: trim_def hd_rev)
  moreover have "last ?u = last (rev ?t)"
    using u by (metis append_Nil2 last_appendR takeWhile_dropWhile_id)
  moreover have "last (rev ?t) = hd ?t" using t by (simp add: last_rev)
  moreover have "\<not> is_ws (hd ?t)" using t by (rule hd_dropWhile)
  ultimately show ?thesis by simp
qed

text \<open>The attributes of the symbol element.\<close>

text \<open>The serialisation of plain values.\<close>

lemma replace_pair_absent:
  "a \<notin> set cs \<Longrightarrow> replace_pair a b r cs = cs"
  by (induction a b r cs rule: replace_pair.induct) auto

lemma json_escape_plain:
  "c \<noteq> CHR 0x22 \<Longrightarrow> c \<noteq> CHR 0x5C \<Longrightarrow> 0x20 \<le> (of_char c :: nat) \<Longrightarrow> json_escape c = [c]"
  by (auto simp: json_escape_def)

lemma JSON_stringify_plain:
  "list_all (\<lambda>c. c \<noteq> CHR 0x22 \<and> c \<noteq> CHR 0x5C \<and> 0x20 \<le> (of_char c :: nat)) v \<Longrightarrow>
     JSON_stringify v = CHR 0x22 # v @ [CHR 0x22]"
  by (induction v) (simp_all add: JSON_stringify_def json_escape_plain)

lemma quoteAttribute_plain:
  assumes "plain_value v"
  shows "quoteAttribute v = CHR 0x22 # v @ [CHR 0x22]"
proof -
  from assms have all: "list_all (\<lambda>c. c \<noteq> CHR 0x22 \<and> c \<noteq> CHR 0x5C \<and> 0x20 \<le> (of_char c :: nat)) v"
    by (simp add: plain_value_def)
  then have q: "concat (map (\<lambda>c. if c = CHR 0x22 then ''&quot;'' else [c]) v) = v"
    by (induction v) simp_all
  from all have nb: "CHR 0x5C \<notin> set (CHR 0x22 # v @ [CHR 0x22])"
    by (auto simp: list_all_iff)
  then have f: "filter (\<lambda>c. c \<noteq> CHR 0x5C) (CHR 0x22 # v @ [CHR 0x22]) = CHR 0x22 # v @ [CHR 0x22]"
    by (auto simp: filter_id_conv)
  show ?thesis
    unfolding quoteAttribute_def q JSON_stringify_plain[OF all] replace_pair_absent[OF nb] f ..
qed

lemma attribute_text_plain:
  "plain_value v \<Longrightarrow> attribute_text k v = k @ ''=\"'' @ v @ ''\"''"
  by (auto simp: attribute_text_def quoteAttribute_plain plain_value_def Let_def)








lemma toLowerCase_id_self [simp]: "toLowerCase ''id'' = ''id''"
  by (simp add: toLowerCase_def to_lower_def)









section \<open>The idempotent writer\<close>

text \<open>
  C9. For every path and new content, \<^verbatim>\<open>writeIfChanged\<close> reads the current content, a
  missing file counting as the empty string and not as an error. When the two are equal it
  returns false, leaves the files as they are and writes nothing. When they differ it writes
  the new content to that path and returns true, or fails with the write error and changes
  nothing where the path cannot be written. It returns true exactly when a write occurred.
\<close>

theorem writeIfChanged_contract:
  "(let cur = (case fs w p of None \<Rightarrow> [] | Some s \<Rightarrow> s);
        (r, w') = writeIfChanged p c w;
        written = filter is_write (events_since w w')
    in (if cur = c then r = Inr False \<and> fs w' = fs w \<and> written = []
        else if p \<in> unwritable w then r = Inl (WriteError p) \<and> fs w' = fs w \<and> written = []
        else r = Inr True \<and> fs w' = (fs w)(p \<mapsto> c) \<and> written = [WriteFile p c])
       \<and> (r = Inr True) = (written \<noteq> []) \<and> unwritable w' = unwritable w)"
  by (simp add: writeIfChanged_cases content_or_empty_def events_since_def Let_def
      split: option.splits)

theorem writeIfChanged_contract_witness:
  "writeIfChanged ''/app/out/README.md'' ''x'' example_world
     = (Inr True, \<lparr>fs = (fs example_world)(''/app/out/README.md'' \<mapsto> ''x''), unwritable = {},
          trace = [ReadFile ''/app/out/README.md'', WriteFile ''/app/out/README.md'' ''x'']\<rparr>)
   \<and> writeIfChanged ''/app/out/README.md'' [] example_world
     = (Inr False, \<lparr>fs = fs example_world, unwritable = {},
          trace = [ReadFile ''/app/out/README.md'']\<rparr>)"
  using writeIfChanged_contract [of example_world "''/app/out/README.md''" "''x''"]
    writeIfChanged_contract [of example_world "''/app/out/README.md''" "[]"]
  by (simp add: example_world_def writeIfChanged_cases content_or_empty_def emit_def)

section \<open>No input\<close>

text \<open>
  C10. When the list of discovered files is empty, the build reports the error (the cancel
  message), exits with status 1, which is not zero, and has done nothing else: the output
  directory is not created and no file is written.
\<close>

theorem build_no_input:
  "fst (build env cfg [] w) = Exited 1 \<and> (1::int) \<noteq> 0
   \<and> fs (snd (build env cfg [] w)) = fs w
   \<and> events_since w (snd (build env cfg [] w))
       = [Cancel (''No SVG files found in '' @ inputDirRelative cfg)]
   \<and> filter is_mkdir (events_since w (snd (build env cfg [] w))) = []
   \<and> filter is_write (events_since w (snd (build env cfg [] w))) = []"
  by (simp add: build_def events_since_def)

section \<open>The up-to-date check\<close>

text \<open>
  C4. If for every icon name of the current file list the existing sprite contains
  \<^verbatim>\<open>id=<name>\<close> and the existing manifest contains \<^verbatim>\<open>"<name>"\<close>, the build ends before
  \<^verbatim>\<open>generateSvgSprite\<close> is called: it writes no file, parses no SVG and runs no optimizer.
  For a file list that is not empty (the only case in which the check is reached) it
  returns as up to date; the empty list has exited before.
\<close>

theorem build_up_to_date:
  assumes "\<forall>file \<in> set files.
             includes_str (content_or_empty w (spriteFilepath cfg)) (''id='' @ iconName file)
           \<and> includes_str (content_or_empty w (typeOutputFilepath cfg))
                 ([CHR 0x22] @ iconName file @ [CHR 0x22])"
  shows "case build env cfg files w of (out, w') \<Rightarrow>
           out = (if files = [] then Exited 1 else UpToDate)
         \<and> fs w' = fs w
         \<and> filter is_write (events_since w w') = []
         \<and> filter is_parse (events_since w w') = []
         \<and> Optimize \<notin> set (events_since w w')"
proof (cases "files = []")
  case True
  then show ?thesis by (simp add: build_def events_since_def)
next
  case False
  have "spriteUpToDate (map iconName files) (content_or_empty w (spriteFilepath cfg))"
    and "typesUpToDate (map iconName files) (content_or_empty w (typeOutputFilepath cfg))"
    using assms by (simp_all add: spriteUpToDate_def typesUpToDate_def list_all_iff)
  from build_short_circuit[OF this False] False show ?thesis
    by (simp add: events_since_def)
qed

theorem build_up_to_date_witness:
  "includes_str (content_or_empty stale_world (spriteFilepath example_cfg)) ''id=a''
   \<and> includes_str (content_or_empty stale_world (spriteFilepath example_cfg)) ''id=b''
   \<and> includes_str (content_or_empty stale_world (typeOutputFilepath example_cfg)) ''\"a\"''
   \<and> includes_str (content_or_empty stale_world (typeOutputFilepath example_cfg)) ''\"b\"''
   \<and> fst (build example_env example_cfg [''a.svg'', ''b.svg''] stale_world) = UpToDate
   \<and> fs (snd (build example_env example_cfg [''a.svg'', ''b.svg''] stale_world)) = fs stale_world"
proof -
  have h: "\<forall>file \<in> set [''a.svg'', ''b.svg''].
       includes_str (content_or_empty stale_world (spriteFilepath example_cfg)) (''id='' @ iconName file)
     \<and> includes_str (content_or_empty stale_world (typeOutputFilepath example_cfg))
           ([CHR 0x22] @ iconName file @ [CHR 0x22])"
    by (simp add: stale_world_def example_cfg_def spriteFilepath_def typeOutputFilepath_def
        example_joins content_or_empty_def)
  from build_up_to_date [OF h, of example_env] h show ?thesis
    by (simp add: split_beta)
qed

text \<open>
  C8. Take the file of an icon out of the file list while the existing sprite still contains
  the symbol of that icon. If the existing outputs satisfy the substring checks for every
  remaining name, the check reports up to date for the remaining list and the build writes
  nothing, so the sprite still contains the symbol of the removed icon afterwards. (With
  nothing remaining the build exits for lack of input, also without a write.)
\<close>

theorem removed_icon_not_detected:
  assumes "\<forall>file \<in> set (removeAll gone files).
             includes_str (content_or_empty w (spriteFilepath cfg)) (''id='' @ iconName file)
           \<and> includes_str (content_or_empty w (typeOutputFilepath cfg))
                 ([CHR 0x22] @ iconName file @ [CHR 0x22])"
      and "gone \<in> set files"
      and "includes_str (content_or_empty w (spriteFilepath cfg)) symbol_of_gone"
  shows "case build env cfg (removeAll gone files) w of (out, w') \<Rightarrow>
           spriteUpToDate (map iconName (removeAll gone files))
             (content_or_empty w (spriteFilepath cfg))
         \<and> typesUpToDate (map iconName (removeAll gone files))
             (content_or_empty w (typeOutputFilepath cfg))
         \<and> out = (if removeAll gone files = [] then Exited 1 else UpToDate)
         \<and> fs w' = fs w
         \<and> filter is_write (events_since w w') = []
         \<and> includes_str (content_or_empty w' (spriteFilepath cfg)) symbol_of_gone"
proof -
  have up: "spriteUpToDate (map iconName (removeAll gone files))
      (content_or_empty w (spriteFilepath cfg))"
    "typesUpToDate (map iconName (removeAll gone files))
      (content_or_empty w (typeOutputFilepath cfg))"
    using assms(1) by (simp_all add: spriteUpToDate_def typesUpToDate_def list_all_iff)
  show ?thesis
  proof (cases "removeAll gone files = []")
    case True
    with up assms(3) show ?thesis
      by (simp add: build_def events_since_def content_or_empty_def)
  next
    case False
    from build_short_circuit[OF up False] up False assms(3) show ?thesis
      by (simp add: events_since_def content_or_empty_def)
  qed
qed

theorem removed_icon_not_detected_witness:
  "''b.svg'' \<in> set [''a.svg'', ''b.svg'']
   \<and> removeAll ''b.svg'' [''a.svg'', ''b.svg''] = [''a.svg'']
   \<and> includes_str (content_or_empty stale_world (spriteFilepath example_cfg)) ''id=a''
   \<and> includes_str (content_or_empty stale_world (typeOutputFilepath example_cfg)) ''\"a\"''
   \<and> includes_str (content_or_empty stale_world (spriteFilepath example_cfg))
        ''<symbol id=b></symbol>''
   \<and> fst (build example_env example_cfg [''a.svg''] stale_world) = UpToDate
   \<and> fs (snd (build example_env example_cfg [''a.svg''] stale_world)) = fs stale_world
   \<and> includes_str (content_or_empty (snd (build example_env example_cfg [''a.svg''] stale_world))
          (spriteFilepath example_cfg)) ''<symbol id=b></symbol>''"
proof -
  have h1: "\<forall>file \<in> set (removeAll ''b.svg'' [''a.svg'', ''b.svg'']).
       includes_str (content_or_empty stale_world (spriteFilepath example_cfg)) (''id='' @ iconName file)
     \<and> includes_str (content_or_empty stale_world (typeOutputFilepath example_cfg))
           ([CHR 0x22] @ iconName file @ [CHR 0x22])"
    by (simp add: stale_world_def example_cfg_def spriteFilepath_def typeOutputFilepath_def
        example_joins content_or_empty_def)
  have h2: "''b.svg'' \<in> set [''a.svg'', ''b.svg'']" by simp
  have h3: "includes_str (content_or_empty stale_world (spriteFilepath example_cfg))
      ''<symbol id=b></symbol>''"
    by (simp add: stale_world_def example_cfg_def spriteFilepath_def
        example_joins content_or_empty_def)
  have r: "removeAll ''b.svg'' [''a.svg'', ''b.svg''] = [''a.svg'']" by simp
  from removed_icon_not_detected [OF h1 h2 h3, of example_env] h1 h2 h3 show ?thesis
    unfolding r by (simp add: split_beta)
qed

section \<open>The symbol normalizer\<close>





section \<open>Facts about the generation path\<close>

lemma join_trailing_empty:
  "ls \<noteq> [] \<Longrightarrow> join sep (ls @ [[]]) = concat (map (\<lambda>l. l @ sep) ls)"
proof (induction ls)
  case Nil
  then show ?case by simp
next
  case (Cons l ls)
  show ?case
  proof (cases ls)
    case Nil
    then show ?thesis by simp
  next
    case (Cons l' ls')
    with Cons.IH show ?thesis by simp
  qed
qed

lemma sprite_document_concat:
  "sprite_document symbols =
     concat (map (\<lambda>l. l @ ''\<newline>'')
       ([xml_declaration, generated_comment, svg_open, ''<defs>''] @ symbols @ [''</defs>'', ''</svg>'']))"
proof -
  have lines: "sprite_lines symbols =
      ([xml_declaration, generated_comment, svg_open, ''<defs>''] @ symbols @ [''</defs>'', ''</svg>'']) @ [[]]"
    by (simp add: sprite_lines_def)
  show ?thesis
    unfolding sprite_document_def lines by (rule join_trailing_empty) simp
qed

lemma symbols_of_Inr:
  "symbols_of env d files w = (Inr symbols, w') \<Longrightarrow>
     list_all2 (\<lambda>file symbol. \<exists>input svg. fs w (path_join d file) = Some input
        \<and> parse_svg env input = Some svg \<and> symbol = toSymbol env file svg) files symbols"
proof (induction files arbitrary: w symbols w')
  case Nil
  then show ?case by simp
next
  case (Cons f files)
  from Cons.prems obtain input where i: "fs w (path_join d f) = Some input"
    by (cases "fs w (path_join d f)") (auto simp: Let_def)
  from Cons.prems i obtain svg where s: "parse_svg env input = Some svg"
    by (cases "parse_svg env input") (auto simp: Let_def)
  let ?w1 = "emit (Parse f) (emit (ReadFile (path_join d f)) w)"
  from Cons.prems i s obtain rest where
    r: "symbols_of env d files ?w1 = (Inr rest, w')" and sy: "symbols = toSymbol env f svg # rest"
    by (cases "symbols_of env d files ?w1") (auto simp: Let_def split: sum.splits)
  from Cons.IH[OF r] have "list_all2 (\<lambda>file symbol. \<exists>input svg. fs w (path_join d file) = Some input
        \<and> parse_svg env input = Some svg \<and> symbol = toSymbol env file svg) files rest"
    by simp
  with i s sy show ?case by simp
qed

lemma writeIfChanged_Inr:
  assumes "writeIfChanged p c w = (Inr b, w')"
  shows "content_or_empty w' p = c" and "\<And>q. q \<noteq> p \<Longrightarrow> fs w' q = fs w q"
    and "unwritable w' = unwritable w"
    and "b = (content_or_empty w p \<noteq> c)"
    and "trace w' = trace w @ ReadFile p # (if b then [WriteFile p c] else [])"
  using assms by (auto simp: writeIfChanged_cases content_or_empty_def split: if_splits)

lemma writeIfChanged_Inl:
  assumes "writeIfChanged p c w = (Inl e, w')"
  shows "fs w' = fs w" and "unwritable w' = unwritable w" and "e = WriteError p"
    and "p \<in> unwritable w" and "content_or_empty w p \<noteq> c"
    and "trace w' = trace w @ [ReadFile p]"
  using assms by (auto simp: writeIfChanged_cases split: if_splits)

lemma content_nonempty_file: "content_or_empty w p = c \<Longrightarrow> c \<noteq> [] \<Longrightarrow> fs w p = Some c"
  by (auto simp: content_or_empty_def split: option.splits)

lemma sprite_document_nonempty: "sprite_document symbols \<noteq> []"
  by (simp add: sprite_document_concat xml_declaration_def)

lemma output_paths_distinct:
  "spriteFilepath cfg \<noteq> typeOutputFilepath cfg"
  "spriteFilepath cfg \<noteq> readmeFilepath cfg"
  "typeOutputFilepath cfg \<noteq> readmeFilepath cfg"
proof -
  have "last (spriteFilepath cfg) = CHR ''g''" "last (typeOutputFilepath cfg) = CHR ''s''"
    "last (readmeFilepath cfg) = CHR ''d''"
    by (simp_all add: spriteFilepath_def typeOutputFilepath_def readmeFilepath_def last_path_join)
  then show "spriteFilepath cfg \<noteq> typeOutputFilepath cfg"
    "spriteFilepath cfg \<noteq> readmeFilepath cfg"
    "typeOutputFilepath cfg \<noteq> readmeFilepath cfg"
    by auto
qed

lemma iconName_svg: "iconName (base @ ''.svg'') = base"
  by (simp add: iconName_def suffix_def)

lemma iconName_other: "\<not> suffix ''.svg'' file \<Longrightarrow> iconName file = file"
  by (simp add: iconName_def)

lemma hex_digit_in: "hex_digit n \<in> set ''0123456789abcdef''"
  unfolding hex_digit_def by (rule nth_mem) simp

lemma hex_digit_not_newline: "hex_digit n \<noteq> CHR ''\<newline>''"
  using hex_digit_in[of n] by auto

lemma json_escape_no_newline: "CHR ''\<newline>'' \<notin> set (json_escape c)"
  using hex_digit_not_newline[of "of_char c div 16"] hex_digit_not_newline[of "of_char c mod 16"]
  by (auto simp: json_escape_def)

lemma JSON_stringify_one_line: "CHR ''\<newline>'' \<notin> set (JSON_stringify name)"
  by (auto simp: JSON_stringify_def json_escape_no_newline)

lemma JSON_stringify_quoted:
  "hd (JSON_stringify name) = CHR 0x22" "last (JSON_stringify name) = CHR 0x22"
  by (simp_all add: JSON_stringify_def)

lemma build_Generated:
  assumes "build env cfg files w = (Generated a b c, w')"
  obtains w3 w4 where "files \<noteq> []"
    and "generateSvgSprite env files (inputDir cfg) (spriteFilepath cfg) (shouldOptimize cfg)
           (emit (ReadFile (typeOutputFilepath cfg)) (emit (ReadFile (spriteFilepath cfg))
             (emit (Mkdir (outputDir cfg)) w))) = (Inr a, w3)"
    and "writeIfChanged (typeOutputFilepath cfg) (typeOutputContent (map iconName files)) w3 = (Inr b, w4)"
    and "writeIfChanged (readmeFilepath cfg) readmeContent w4 = (Inr c, w')"
    and "\<not> (spriteUpToDate (map iconName files) (content_or_empty w (spriteFilepath cfg))
            \<and> typesUpToDate (map iconName files) (content_or_empty w (typeOutputFilepath cfg)))"
  using assms
  by (auto simp: build_def mkdirSync_def readFileOrEmpty_def Let_def
      split: if_splits prod.splits sum.splits)


lemma typeOutputContent_nonempty: "typeOutputContent names \<noteq> []"
  by (simp add: typeOutputContent_def)

lemma symbols_of_Inl:
  "symbols_of env d files w = (Inl e, w') \<Longrightarrow> e = NoSvgElement \<or> (\<exists>p. e = ReadError p)"
proof (induction files arbitrary: w w')
  case Nil
  then show ?case by simp
next
  case (Cons f files)
  then show ?case
    by (auto simp: Let_def split: option.splits sum.splits prod.splits)
qed

lemma symbols_of_malformed:
  assumes "file \<in> set files" and "fs w (path_join d file) = Some input"
    and "parse_svg env input = None"
  shows "\<exists>e. fst (symbols_of env d files w) = Inl e"
  using assms
proof (induction files arbitrary: w)
  case Nil
  then show ?case by simp
next
  case (Cons f files)
  show ?case
  proof (cases "fs w (path_join d f)")
    case None
    then show ?thesis by (simp add: Let_def)
  next
    case (Some input')
    show ?thesis
    proof (cases "parse_svg env input'")
      case None
      with Some show ?thesis by (simp add: Let_def)
    next
      case (Some svg)
      let ?w1 = "emit (Parse f) (emit (ReadFile (path_join d f)) w)"
      have "file \<noteq> f"
        using Cons.prems(2,3) \<open>fs w (path_join d f) = Some input'\<close> Some by auto
      with Cons.prems(1) have "file \<in> set files" by simp
      moreover have "fs ?w1 (path_join d file) = Some input" using Cons.prems(2) by simp
      ultimately obtain e where "fst (symbols_of env d files ?w1) = Inl e"
        using Cons.IH Cons.prems(3) by blast
      with \<open>fs w (path_join d f) = Some input'\<close> Some show ?thesis
        by (cases "symbols_of env d files ?w1") (simp add: Let_def)
    qed
  qed
qed

lemma generateSvgSprite_malformed:
  assumes "file \<in> set files" and "fs w (path_join d file) = Some input"
    and "parse_svg env input = None"
  obtains e w' evs where "generateSvgSprite env files d outputPath opt w = (Inl e, w')"
    and "e = NoSvgElement \<or> (\<exists>p. e = ReadError p)"
    and "fs w' = fs w" and "trace w' = trace w @ evs" and "filter is_write evs = []"
proof -
  from symbols_of_malformed[OF assms] obtain e w' where
    s: "symbols_of env d files w = (Inl e, w')"
    by (cases "symbols_of env d files w") auto
  from symbols_of_frame[OF s] obtain evs where
    "fs w' = fs w" "trace w' = trace w @ evs" "filter is_write evs = []"
    by blast
  moreover have "generateSvgSprite env files d outputPath opt w = (Inl e, w')"
    using s by (simp add: generateSvgSprite_def)
  ultimately show thesis using symbols_of_Inl[OF s] that by blast
qed

section \<open>Two runs in a row\<close>

lemma symbols_of_cong:
  "(\<And>f. f \<in> set files \<Longrightarrow> fs v (path_join d f) = fs w (path_join d f)) \<Longrightarrow>
     fst (symbols_of env d files v) = fst (symbols_of env d files w)"
proof (induction files arbitrary: v w)
  case Nil
  then show ?case by simp
next
  case (Cons f files)
  have same: "fs v (path_join d f) = fs w (path_join d f)" using Cons.prems by simp
  show ?case
  proof (cases "fs w (path_join d f)")
    case None
    with same show ?thesis by (simp add: Let_def)
  next
    case (Some input)
    show ?thesis
    proof (cases "parse_svg env input")
      case None
      with Some same show ?thesis by (simp add: Let_def)
    next
      case (Some svg)
      let ?v1 = "emit (Parse f) (emit (ReadFile (path_join d f)) v)"
      let ?w1 = "emit (Parse f) (emit (ReadFile (path_join d f)) w)"
      have "fst (symbols_of env d files ?v1) = fst (symbols_of env d files ?w1)"
        by (rule Cons.IH) (simp add: Cons.prems)
      with \<open>fs w (path_join d f) = Some input\<close> Some same show ?thesis
        by (cases "symbols_of env d files ?v1"; cases "symbols_of env d files ?w1")
           (auto simp: Let_def split: sum.splits)
    qed
  qed
qed

lemma sprite_content_cong:
  "(\<And>f. f \<in> set files \<Longrightarrow> fs v (path_join (inputDir cfg) f) = fs w (path_join (inputDir cfg) f)) \<Longrightarrow>
     sprite_content env cfg files v = sprite_content env cfg files w"
  unfolding sprite_content_def by (simp add: symbols_of_cong[of files v _ w])

lemma generateSvgSprite_split:
  "\<exists>wx evs. fs wx = fs w \<and> unwritable wx = unwritable w \<and> trace wx = trace w @ evs
      \<and> filter is_write evs = [] \<and> filter is_mkdir evs = []
      \<and> generateSvgSprite env files (inputDir cfg) outputPath (shouldOptimize cfg) w =
          (case sprite_content env cfg files w of
             Inl e \<Rightarrow> (Inl e, wx)
           | Inr output \<Rightarrow> writeIfChanged outputPath output wx)"
proof -
  obtain r w1 where s: "symbols_of env (inputDir cfg) files w = (r, w1)"
    by (cases "symbols_of env (inputDir cfg) files w")
  from symbols_of_frame[OF s] obtain evs where
    f: "fs w1 = fs w" "unwritable w1 = unwritable w" "trace w1 = trace w @ evs"
      "filter is_write evs = []" "filter is_mkdir evs = []"
    by blast
  show ?thesis
  proof (cases "shouldOptimize cfg \<and> (\<exists>symbols. r = Inr symbols)")
    case True
    have "fs (emit Optimize w1) = fs w \<and> unwritable (emit Optimize w1) = unwritable w
      \<and> trace (emit Optimize w1) = trace w @ (evs @ [Optimize])
      \<and> filter is_write (evs @ [Optimize]) = [] \<and> filter is_mkdir (evs @ [Optimize]) = []
      \<and> generateSvgSprite env files (inputDir cfg) outputPath (shouldOptimize cfg) w =
          (case sprite_content env cfg files w of
             Inl e \<Rightarrow> (Inl e, emit Optimize w1)
           | Inr output \<Rightarrow> writeIfChanged outputPath output (emit Optimize w1))"
      using True s f
      by (auto simp: generateSvgSprite_def sprite_content_def split: option.splits)
    then show ?thesis by blast
  next
    case False
    have "generateSvgSprite env files (inputDir cfg) outputPath (shouldOptimize cfg) w =
          (case sprite_content env cfg files w of
             Inl e \<Rightarrow> (Inl e, w1)
           | Inr output \<Rightarrow> writeIfChanged outputPath output w1)"
      using False s
      by (cases r) (auto simp: generateSvgSprite_def sprite_content_def)
    with f show ?thesis by blast
  qed
qed

lemma build_mkdir_fails:
  assumes "files \<noteq> []" and "outputDir cfg \<in> unwritable w" and "\<not> holds_file w (outputDir cfg)"
  shows "build env cfg files w
    = (Threw (MkdirError (outputDir cfg)), emit (Mkdir (outputDir cfg)) w)"
  using assms by (simp add: build_def mkdirSync_def)

lemma build_split:
  assumes "files \<noteq> []"
    and "\<not> (outputDir cfg \<in> unwritable w \<and> \<not> holds_file w (outputDir cfg))"
  shows "\<exists>wx evs. fs wx = fs w \<and> unwritable wx = unwritable w \<and> trace wx = trace w @ evs
      \<and> filter is_write evs = []
      \<and> build env cfg files w =
          (if spriteUpToDate (map iconName files) (content_or_empty w (spriteFilepath cfg))
              \<and> typesUpToDate (map iconName files) (content_or_empty w (typeOutputFilepath cfg))
           then (UpToDate, wx)
           else case sprite_content env cfg files w of
                  Inl e \<Rightarrow> (Threw e, wx)
                | Inr output \<Rightarrow> write_outputs cfg files output wx)"
proof -
  let ?w2 = "emit (ReadFile (typeOutputFilepath cfg)) (emit (ReadFile (spriteFilepath cfg))
             (emit (Mkdir (outputDir cfg)) w))"
  let ?up = "spriteUpToDate (map iconName files) (content_or_empty w (spriteFilepath cfg))
              \<and> typesUpToDate (map iconName files) (content_or_empty w (typeOutputFilepath cfg))"
  have b: "build env cfg files w =
      (if ?up then (UpToDate, ?w2)
       else case generateSvgSprite env files (inputDir cfg) (spriteFilepath cfg) (shouldOptimize cfg) ?w2 of
          (Inl e, w3) \<Rightarrow> (Threw e, w3)
        | (Inr spriteChanged, w3) \<Rightarrow>
       (case writeIfChanged (typeOutputFilepath cfg) (typeOutputContent (map iconName files)) w3 of
          (Inl e, w4) \<Rightarrow> (Threw e, w4)
        | (Inr typesChanged, w4) \<Rightarrow>
       (case writeIfChanged (readmeFilepath cfg) readmeContent w4 of
          (Inl e, w5) \<Rightarrow> (Threw e, w5)
        | (Inr readmeChanged, w5) \<Rightarrow>
            (Generated spriteChanged typesChanged readmeChanged, w5))))"
    using assms by (auto simp add: build_def mkdirSync_def readFileOrEmpty_def Let_def)
  show ?thesis
  proof (cases ?up)
    case True
    have "fs ?w2 = fs w \<and> unwritable ?w2 = unwritable w
        \<and> trace ?w2 = trace w @ [Mkdir (outputDir cfg), ReadFile (spriteFilepath cfg),
            ReadFile (typeOutputFilepath cfg)]
        \<and> filter is_write [Mkdir (outputDir cfg), ReadFile (spriteFilepath cfg),
            ReadFile (typeOutputFilepath cfg)] = []"
      by simp
    with True b show ?thesis by (metis (no_types, lifting))
  next
    case False
    from generateSvgSprite_split[of ?w2 env files cfg "spriteFilepath cfg"]
    obtain wx evs where
      f: "fs wx = fs ?w2" "unwritable wx = unwritable ?w2" "trace wx = trace ?w2 @ evs"
        "filter is_write evs = []"
      and g: "generateSvgSprite env files (inputDir cfg) (spriteFilepath cfg) (shouldOptimize cfg) ?w2 =
          (case sprite_content env cfg files ?w2 of
             Inl e \<Rightarrow> (Inl e, wx)
           | Inr output \<Rightarrow> writeIfChanged (spriteFilepath cfg) output wx)"
      by blast
    have c: "sprite_content env cfg files ?w2 = sprite_content env cfg files w"
      by (rule sprite_content_cong) simp
    have "build env cfg files w =
        (case sprite_content env cfg files w of
           Inl e \<Rightarrow> (Threw e, wx)
         | Inr output \<Rightarrow> write_outputs cfg files output wx)"
      using False b g c by (auto simp: write_outputs_def split: sum.splits)
    moreover have "fs wx = fs w" "unwritable wx = unwritable w"
      "trace wx = trace w @ ([Mkdir (outputDir cfg), ReadFile (spriteFilepath cfg),
            ReadFile (typeOutputFilepath cfg)] @ evs)"
      "filter is_write ([Mkdir (outputDir cfg), ReadFile (spriteFilepath cfg),
            ReadFile (typeOutputFilepath cfg)] @ evs) = []"
      using f by simp_all
    ultimately show ?thesis using False by (metis (no_types, lifting))
  qed
qed

lemma content_or_empty_cong: "fs v p = fs w p \<Longrightarrow> content_or_empty v p = content_or_empty w p"
  by (simp add: content_or_empty_def)

lemma writeIfChanged_other:
  assumes "writeIfChanged p c w = (r, w')"
  shows "unwritable w' = unwritable w" and "q \<noteq> p \<Longrightarrow> fs w' q = fs w q"
    and "fs w q \<noteq> None \<Longrightarrow> fs w' q \<noteq> None"
  using assms by (auto simp: writeIfChanged_cases split: if_splits)

text \<open>Running a write step again on the content it left never writes.\<close>

lemma rerun_write:
  assumes "writeIfChanged p c w = (r, w')"
    and "content_or_empty v p = content_or_empty w' p" and "unwritable v = unwritable w"
  shows "writeIfChanged p c v =
           ((case r of Inl e \<Rightarrow> Inl e | Inr b \<Rightarrow> Inr False), emit (ReadFile p) v)"
proof (cases r)
  case (Inl e)
  with assms(1) have "e = WriteError p" "p \<in> unwritable w" "content_or_empty w p \<noteq> c" "fs w' = fs w"
    by (auto dest: writeIfChanged_Inl)
  with assms(2,3) Inl show ?thesis
    by (simp add: writeIfChanged_cases content_or_empty_def)
next
  case (Inr b)
  with assms(1) have "content_or_empty w' p = c" by (auto dest: writeIfChanged_Inr(1))
  with assms(2) Inr show ?thesis by (simp add: writeIfChanged_cases)
qed

lemma write_outputs_frame:
  assumes "write_outputs cfg files c w = (out, w')"
  shows "unwritable w' = unwritable w"
    and "q \<notin> {spriteFilepath cfg, typeOutputFilepath cfg, readmeFilepath cfg} \<Longrightarrow> fs w' q = fs w q"
    and "fs w q \<noteq> None \<Longrightarrow> fs w' q \<noteq> None"
proof -
  obtain r1 w3 where 1: "writeIfChanged (spriteFilepath cfg) c w = (r1, w3)"
    by (cases "writeIfChanged (spriteFilepath cfg) c w")
  obtain r2 w4 where 2: "writeIfChanged (typeOutputFilepath cfg) (typeOutputContent (map iconName files)) w3 = (r2, w4)"
    by (cases "writeIfChanged (typeOutputFilepath cfg) (typeOutputContent (map iconName files)) w3")
  obtain r3 w5 where 3: "writeIfChanged (readmeFilepath cfg) readmeContent w4 = (r3, w5)"
    by (cases "writeIfChanged (readmeFilepath cfg) readmeContent w4")
  have "w' = w3 \<or> w' = w4 \<or> w' = w5"
    using assms 1 2 3 by (auto simp: write_outputs_def split: sum.splits)
  moreover note writeIfChanged_other[OF 1] writeIfChanged_other[OF 2] writeIfChanged_other[OF 3]
  ultimately show "unwritable w' = unwritable w"
    and "q \<notin> {spriteFilepath cfg, typeOutputFilepath cfg, readmeFilepath cfg} \<Longrightarrow> fs w' q = fs w q"
    and "fs w q \<noteq> None \<Longrightarrow> fs w' q \<noteq> None"
    by auto
qed

lemma write_outputs_rerun:
  assumes run: "write_outputs cfg files c w = (out, w')"
    and v: "fs v = fs w'" "unwritable v = unwritable w"
  shows "\<exists>v' evs. write_outputs cfg files c v =
            ((case out of Generated a b c \<Rightarrow> Generated False False False | other \<Rightarrow> other), v')
          \<and> fs v' = fs v \<and> trace v' = trace v @ evs \<and> filter is_write evs = []"
proof -
  let ?P1 = "spriteFilepath cfg" and ?P2 = "typeOutputFilepath cfg" and ?P3 = "readmeFilepath cfg"
  let ?c2 = "typeOutputContent (map iconName files)"
  let ?v1 = "emit (ReadFile ?P1) v"
  let ?v2 = "emit (ReadFile ?P2) ?v1"
  let ?v3 = "emit (ReadFile ?P3) ?v2"
  note d = output_paths_distinct[of cfg]
  obtain r1 w3 where 1: "writeIfChanged ?P1 c w = (r1, w3)"
    by (cases "writeIfChanged ?P1 c w")
  show ?thesis
  proof (cases r1)
    case (Inl e)
    with run 1 have o: "out = Threw e" "w' = w3" by (simp_all add: write_outputs_def)
    have "writeIfChanged ?P1 c v = (Inl e, ?v1)"
      using rerun_write[OF 1, of v] v o Inl by (simp add: content_or_empty_def)
    then have "write_outputs cfg files c v = (Threw e, ?v1)" by (simp add: write_outputs_def)
    moreover have "fs ?v1 = fs v" "trace ?v1 = trace v @ [ReadFile ?P1]"
      "filter is_write [ReadFile ?P1] = []" by simp_all
    ultimately show ?thesis using o by auto
  next
    case (Inr a)
    obtain r2 w4 where 2: "writeIfChanged ?P2 ?c2 w3 = (r2, w4)"
      by (cases "writeIfChanged ?P2 ?c2 w3")
    note o1 = writeIfChanged_other[OF 1] and o2 = writeIfChanged_other[OF 2]
    show ?thesis
    proof (cases r2)
      case (Inl e)
      with run 1 2 \<open>r1 = Inr a\<close> have o: "out = Threw e" "w' = w4" by (simp_all add: write_outputs_def)
      have "fs w4 ?P1 = fs w3 ?P1" using o2(2)[of ?P1] d by simp
      then have s1: "writeIfChanged ?P1 c v = (Inr False, ?v1)"
        using rerun_write[OF 1, of v] v o \<open>r1 = Inr a\<close> by (simp add: content_or_empty_def)
      have s2: "writeIfChanged ?P2 ?c2 ?v1 = (Inl e, ?v2)"
        using rerun_write[OF 2, of ?v1] v o o1 Inl by (simp add: content_or_empty_def)
      have "write_outputs cfg files c v = (Threw e, ?v2)"
        using s1 s2 by (simp add: write_outputs_def)
      moreover have "fs ?v2 = fs v" "trace ?v2 = trace v @ [ReadFile ?P1, ReadFile ?P2]"
        "filter is_write [ReadFile ?P1, ReadFile ?P2] = []" by simp_all
      ultimately show ?thesis using o by auto
    next
      case (Inr b)
      obtain r3 w5 where 3: "writeIfChanged ?P3 readmeContent w4 = (r3, w5)"
        by (cases "writeIfChanged ?P3 readmeContent w4")
      note o3 = writeIfChanged_other[OF 3]
      have w': "w' = w5" and out: "out = (case r3 of Inl e \<Rightarrow> Threw e | Inr c \<Rightarrow> Generated a b c)"
        using run 1 2 3 \<open>r1 = Inr a\<close> Inr by (auto simp: write_outputs_def split: sum.splits)
      have "fs w5 ?P1 = fs w3 ?P1" using o2(2)[of ?P1] o3(2)[of ?P1] d by simp
      then have s1: "writeIfChanged ?P1 c v = (Inr False, ?v1)"
        using rerun_write[OF 1, of v] v w' \<open>r1 = Inr a\<close> by (simp add: content_or_empty_def)
      have "fs w5 ?P2 = fs w4 ?P2" using o3(2)[of ?P2] d by simp
      then have s2: "writeIfChanged ?P2 ?c2 ?v1 = (Inr False, ?v2)"
        using rerun_write[OF 2, of ?v1] v w' o1 Inr by (simp add: content_or_empty_def)
      have s3: "writeIfChanged ?P3 readmeContent ?v2
          = ((case r3 of Inl e \<Rightarrow> Inl e | Inr b \<Rightarrow> Inr False), ?v3)"
        using rerun_write[OF 3, of ?v2] v w' o1 o2 by (simp add: content_or_empty_def)
      have "write_outputs cfg files c v =
          ((case out of Generated a b c \<Rightarrow> Generated False False False | other \<Rightarrow> other), ?v3)"
        using s1 s2 s3 out by (cases r3) (simp_all add: write_outputs_def)
      moreover have "fs ?v3 = fs v" "trace ?v3 = trace v @ [ReadFile ?P1, ReadFile ?P2, ReadFile ?P3]"
        "filter is_write [ReadFile ?P1, ReadFile ?P2, ReadFile ?P3] = []" by simp_all
      ultimately show ?thesis by blast
    qed
  qed
qed

lemma write_outputs_outcome:
  "write_outputs cfg files c w = (out, w') \<Longrightarrow> (\<exists>e. out = Threw e) \<or> (\<exists>a b c. out = Generated a b c)"
  by (auto simp: write_outputs_def split: prod.splits sum.splits)

section \<open>The example project\<close>

lemma example_toSymbol:
  "toSymbol example_env ''a.svg''
     \<lparr>tagName = ''svg'', attrs = [(''width'', ''10''), (''viewBox'', ''0 0 10 10'')],
      innerHTML = ''<path d=\"M0 0\"></path>''\<rparr>
   = ''<symbol viewBox=\"0 0 10 10\" id=\"a\"><path d=\"M0 0\"></path></symbol>''"
  by (simp add: toSymbol_def symbolElement_def setAttribute_def removeAttribute_def
        example_env_def trim_def is_ws_def AList.delete_eq element_toString_def rawAttrs_def
        attribute_text_plain plain_value_def toLowerCase_def to_lower_def)

lemma example_symbols_of:
  assumes "fs w = fs example_world"
  shows "symbols_of example_env ''/app/svg'' [''a.svg''] w
     = (Inr [''<symbol viewBox=\"0 0 10 10\" id=\"a\"><path d=\"M0 0\"></path></symbol>''],
        emit (Parse ''a.svg'') (emit (ReadFile ''/app/svg/a.svg'') w))"
proof -
  have 1: "fs w (path_join ''/app/svg'' ''a.svg'') = Some ''<svg width=\"10\" viewBox=\"0 0 10 10\"><path d=\"M0 0\"/></svg>''"
    using assms by (simp add: example_world_def example_joins)
  have 2: "parse_svg example_env ''<svg width=\"10\" viewBox=\"0 0 10 10\"><path d=\"M0 0\"/></svg>''
    = Some \<lparr>tagName = ''svg'', attrs = [(''width'', ''10''), (''viewBox'', ''0 0 10 10'')],
      innerHTML = ''<path d=\"M0 0\"></path>''\<rparr>"
    by (simp add: example_env_def example_parse_def)
  show ?thesis
    by (simp add: 1 2 Let_def example_toSymbol) (simp add: example_joins)
qed

lemma example_generate:
  "fst (generateSvgSprite example_env [''a.svg''] ''/app/svg'' ''/app/out/sprite.svg'' False example_world)
     = Inr True"
  by (simp add: generateSvgSprite_def example_symbols_of[OF refl] writeIfChanged_cases
      content_or_empty_def sprite_document_concat xml_declaration_def del: symbols_of.simps)
     (simp add: example_world_def)


lemma example_run1:
  "build example_env example_cfg [''a.svg''] example_world =
    (Generated True True True,
     \<lparr>fs = (fs example_world)
        (''/app/out/sprite.svg'' \<mapsto> sprite_document [''<symbol viewBox=\"0 0 10 10\" id=\"a\"><path d=\"M0 0\"></path></symbol>''],
         ''/app/out/name.d.ts'' \<mapsto> typeOutputContent [''a''],
         ''/app/out/README.md'' \<mapsto> readmeContent),
      unwritable = {},
      trace = [Mkdir ''/app/out'', ReadFile ''/app/out/sprite.svg'', ReadFile ''/app/out/name.d.ts'',
        ReadFile ''/app/svg/a.svg'', Parse ''a.svg'',
        ReadFile ''/app/out/sprite.svg'',
        WriteFile ''/app/out/sprite.svg'' (sprite_document [''<symbol viewBox=\"0 0 10 10\" id=\"a\"><path d=\"M0 0\"></path></symbol>'']),
        ReadFile ''/app/out/name.d.ts'', WriteFile ''/app/out/name.d.ts'' (typeOutputContent [''a'']),
        ReadFile ''/app/out/README.md'', WriteFile ''/app/out/README.md'' readmeContent]\<rparr>)"
proof -
  have s: "symbols_of example_env ''/app/svg'' [''a.svg''] w
     = (Inr [''<symbol viewBox=\"0 0 10 10\" id=\"a\"><path d=\"M0 0\"></path></symbol>''],
        emit (Parse ''a.svg'') (emit (ReadFile ''/app/svg/a.svg'') w))" if "fs w = fs example_world" for w
    using that by (rule example_symbols_of)
  have ne: "sprite_document syms \<noteq> []" "typeOutputContent ns \<noteq> []" "readmeContent \<noteq> []" for syms ns
    by (simp_all add: sprite_document_nonempty typeOutputContent_nonempty readmeContent_def)
  have ne': "[] \<noteq> sprite_document syms" "[] \<noteq> typeOutputContent ns" "[] \<noteq> readmeContent" for syms ns
    using ne(1)[of syms] ne(2)[of ns] ne(3) by auto
  have fs0: "fs example_world ''/app/out/sprite.svg'' = None" "fs example_world ''/app/out/name.d.ts'' = None"
    "fs example_world ''/app/out/README.md'' = None"
    by (simp_all add: example_world_def)
  show ?thesis
    by (simp add: build_def mkdirSync_writable example_unwritable readFileOrEmpty_def Let_def generateSvgSprite_def s
        spriteUpToDate_def typesUpToDate_def writeIfChanged_cases content_or_empty_def
        spriteFilepath_def typeOutputFilepath_def readmeFilepath_def example_joins example_cfg_def
        fs0 ne ne' emit_def
        del: symbols_of.simps)
       (simp add: example_world_def)
qed

lemma example_sprite_check:
  "\<not> includes_str (sprite_document [''<symbol viewBox=\"0 0 10 10\" id=\"a\"><path d=\"M0 0\"></path></symbol>'']) ''id=a''"
  by (simp add: sprite_document_concat xml_declaration_def generated_comment_def svg_open_def)

lemma example_symbols_of':
  assumes "fs w ''/app/svg/a.svg'' = fs example_world ''/app/svg/a.svg''"
  shows "fst (symbols_of example_env ''/app/svg'' [''a.svg''] w)
     = Inr [''<symbol viewBox=\"0 0 10 10\" id=\"a\"><path d=\"M0 0\"></path></symbol>'']"
proof -
  have "fst (symbols_of example_env ''/app/svg'' [''a.svg''] w)
      = fst (symbols_of example_env ''/app/svg'' [''a.svg''] example_world)"
    by (rule symbols_of_cong) (simp add: assms example_joins)
  then show ?thesis by (simp only: example_symbols_of[OF refl] fst_conv)
qed

lemma example_paths:
  "spriteFilepath example_cfg = ''/app/out/sprite.svg''"
  "typeOutputFilepath example_cfg = ''/app/out/name.d.ts''"
  "readmeFilepath example_cfg = ''/app/out/README.md''"
  "inputDir example_cfg = ''/app/svg''"
  by (simp_all add: spriteFilepath_def typeOutputFilepath_def readmeFilepath_def example_joins
      example_cfg_def)

lemma example_run2:
  "fst (build example_env example_cfg [''a.svg'']
         (snd (build example_env example_cfg [''a.svg''] example_world)))
     = Generated False False False"
proof -
  let ?sym = "''<symbol viewBox=\"0 0 10 10\" id=\"a\"><path d=\"M0 0\"></path></symbol>''"
  let ?w1 = "snd (build example_env example_cfg [''a.svg''] example_world)"
  have f: "fs ?w1 = (fs example_world)
        (''/app/out/sprite.svg'' \<mapsto> sprite_document [?sym],
         ''/app/out/name.d.ts'' \<mapsto> typeOutputContent [''a''],
         ''/app/out/README.md'' \<mapsto> readmeContent)"
    and u: "unwritable ?w1 = {}"
    by (simp_all add: example_run1)
  have c: "content_or_empty ?w1 (spriteFilepath example_cfg) = sprite_document [?sym]"
    "content_or_empty ?w1 (typeOutputFilepath example_cfg) = typeOutputContent [''a'']"
    "content_or_empty ?w1 (readmeFilepath example_cfg) = readmeContent"
    by (simp_all add: content_or_empty_def f example_paths)
  have nup: "\<not> spriteUpToDate (map iconName [''a.svg'']) (content_or_empty ?w1 (spriteFilepath example_cfg))"
    by (simp add: c spriteUpToDate_def example_sprite_check)
  have "fst (symbols_of example_env (inputDir example_cfg) [''a.svg''] ?w1) = Inr [?sym]"
    unfolding example_paths
    by (rule example_symbols_of') (simp add: f)
  then have sc: "sprite_content example_env example_cfg [''a.svg''] ?w1 = Inr (sprite_document [?sym])"
    by (simp add: sprite_content_def del: symbols_of.simps) (simp add: example_cfg_def)
  have nf: "\<not> (outputDir example_cfg \<in> unwritable ?w1 \<and> \<not> holds_file ?w1 (outputDir example_cfg))"
    by (simp add: u)
  from build_split[OF _ nf, of "[''a.svg'']" example_env] nup sc
  obtain wx where wx: "fs wx = fs ?w1"
    and b: "build example_env example_cfg [''a.svg''] ?w1
        = write_outputs example_cfg [''a.svg''] (sprite_document [?sym]) wx"
    by auto
  have cx: "content_or_empty wx (spriteFilepath example_cfg) = sprite_document [?sym]"
    "content_or_empty wx (typeOutputFilepath example_cfg) = typeOutputContent [''a'']"
    "content_or_empty wx (readmeFilepath example_cfg) = readmeContent"
    using c wx by (simp_all add: content_or_empty_def)
  show ?thesis
    unfolding b by (simp add: write_outputs_def writeIfChanged_cases cx)
qed


section \<open>The sprite assembler\<close>

text \<open>
  C6. Without the optimizer the sprite document is these lines, each followed by a
  newline: the XML declaration, the generated-file comment, the root \<^verbatim>\<open>svg\<close> element with
  both namespaces and \<^verbatim>\<open>width="0" height="0"\<close>, \<^verbatim>\<open><defs>\<close>, the symbols in the order of the
  input files, \<^verbatim>\<open></defs>\<close> and \<^verbatim>\<open></svg>\<close>. When \<^verbatim>\<open>generateSvgSprite\<close> returns with the
  optimizer off, the output file holds this document over the fragments of the files, one per
  file and in their order.
\<close>

theorem sprite_document_layout:
  "sprite_document symbols =
     ''<?xml version=\"1.0\" encoding=\"UTF-8\"?>'' @ ''\<newline>''
     @ ''<!-- This file is generated by npm run build:icons -->'' @ ''\<newline>''
     @ ''<svg xmlns=\"http://www.w3.org/2000/svg\" xmlns:xlink=\"http://www.w3.org/1999/xlink\" width=\"0\" height=\"0\">'' @ ''\<newline>''
     @ ''<defs>'' @ ''\<newline>''
     @ concat (map (\<lambda>symbol. symbol @ ''\<newline>'') symbols)
     @ ''</defs>'' @ ''\<newline>''
     @ ''</svg>'' @ ''\<newline>''
   \<and> (\<forall>changed w'. generateSvgSprite env files dir outputPath False w = (Inr changed, w') \<longrightarrow>
        (\<exists>symbols. list_all2 (\<lambda>file symbol. \<exists>input svg. fs w (path_join dir file) = Some input
              \<and> parse_svg env input = Some svg \<and> symbol = toSymbol env file svg) files symbols
           \<and> fs w' outputPath = Some (sprite_document symbols)))"
proof -
  have layout: "sprite_document symbols =
     ''<?xml version=\"1.0\" encoding=\"UTF-8\"?>'' @ ''\<newline>''
     @ ''<!-- This file is generated by npm run build:icons -->'' @ ''\<newline>''
     @ ''<svg xmlns=\"http://www.w3.org/2000/svg\" xmlns:xlink=\"http://www.w3.org/1999/xlink\" width=\"0\" height=\"0\">'' @ ''\<newline>''
     @ ''<defs>'' @ ''\<newline>''
     @ concat (map (\<lambda>symbol. symbol @ ''\<newline>'') symbols)
     @ ''</defs>'' @ ''\<newline>''
     @ ''</svg>'' @ ''\<newline>''"
    by (simp add: sprite_document_concat xml_declaration_def generated_comment_def svg_open_def)
  have written: "\<exists>symbols. list_all2 (\<lambda>file symbol. \<exists>input svg. fs w (path_join dir file) = Some input
              \<and> parse_svg env input = Some svg \<and> symbol = toSymbol env file svg) files symbols
           \<and> fs w' outputPath = Some (sprite_document symbols)"
    if gen: "generateSvgSprite env files dir outputPath False w = (Inr changed, w')" for changed w'
  proof -
    from gen obtain symbols w1 where
      sy: "symbols_of env dir files w = (Inr symbols, w1)"
      and wr: "writeIfChanged outputPath (sprite_document symbols) w1 = (Inr changed, w')"
      by (cases "symbols_of env dir files w")
         (auto simp: generateSvgSprite_def split: sum.splits)
    from writeIfChanged_Inr(1)[OF wr] sprite_document_nonempty
    have "fs w' outputPath = Some (sprite_document symbols)"
      by (rule content_nonempty_file)
    with symbols_of_Inr[OF sy] show ?thesis by blast
  qed
  from layout written show ?thesis by blast
qed

theorem sprite_document_layout_witness:
  "fst (generateSvgSprite example_env [''a.svg''] ''/app/svg'' ''/app/out/sprite.svg'' False example_world)
     = Inr True
   \<and> fs (snd (generateSvgSprite example_env [''a.svg''] ''/app/svg'' ''/app/out/sprite.svg'' False
        example_world)) ''/app/out/sprite.svg''
     = Some (''<?xml version=\"1.0\" encoding=\"UTF-8\"?>\<newline><!-- This file is generated by npm run build:icons -->\<newline><svg xmlns=\"http://www.w3.org/2000/svg\" xmlns:xlink=\"http://www.w3.org/1999/xlink\" width=\"0\" height=\"0\">\<newline><defs>\<newline><symbol viewBox=\"0 0 10 10\" id=\"a\"><path d=\"M0 0\"></path></symbol>\<newline></defs>\<newline></svg>\<newline>'')"
proof -
  let ?g = "generateSvgSprite example_env [''a.svg''] ''/app/svg'' ''/app/out/sprite.svg'' False example_world"
  let ?sym = "''<symbol viewBox=\"0 0 10 10\" id=\"a\"><path d=\"M0 0\"></path></symbol>''"
  have g: "?g = (Inr True, snd ?g)" using example_generate by (cases ?g) simp
  note layout = sprite_document_layout [of "[?sym]" example_env "[''a.svg'']" "''/app/svg''"
      "''/app/out/sprite.svg''" example_world]
  from layout g obtain symbols where
    l: "list_all2 (\<lambda>file symbol. \<exists>input svg. fs example_world (path_join ''/app/svg'' file) = Some input
              \<and> parse_svg example_env input = Some svg \<and> symbol = toSymbol example_env file svg)
          [''a.svg''] symbols"
    and f: "fs (snd ?g) ''/app/out/sprite.svg'' = Some (sprite_document symbols)"
    by blast
  from l have "symbols = [?sym]"
    by (auto simp: list_all2_Cons1 example_world_def example_joins example_env_def
        example_parse_def example_toSymbol[unfolded example_env_def])
  with f layout example_generate show ?thesis by simp
qed

section \<open>A malformed source file\<close>

text \<open>
  C3 (amended). If one file of the list has no \<^verbatim>\<open>svg\<close> element, every call of
  \<^verbatim>\<open>generateSvgSprite\<close> on the list fails (with that error, or with the read error of
  another file) before any write, whatever the other files hold. A build over such a list
  changes no file and writes nothing. It aborts with the error of \<^verbatim>\<open>mkdirSync\<close> when the
  output directory cannot be created; otherwise it returns as up to date, without calling
  \<^verbatim>\<open>generateSvgSprite\<close>, when its up-to-date check succeeds; otherwise it aborts with the
  error of \<^verbatim>\<open>generateSvgSprite\<close>.
\<close>

theorem malformed_svg_aborts:
  assumes "file \<in> set files" and "fs w (path_join (inputDir cfg) file) = Some input"
    and "parse_svg env input = None"
  shows "(case generateSvgSprite env files (inputDir cfg) outputPath opt w of (r, w') \<Rightarrow>
            (r = Inl NoSvgElement \<or> (\<exists>p. r = Inl (ReadError p)))
          \<and> fs w' = fs w \<and> filter is_write (events_since w w') = [])
       \<and> (case build env cfg files w of (out, w') \<Rightarrow>
            fs w' = fs w \<and> filter is_write (events_since w w') = []
          \<and> (if fst (mkdirSync (outputDir cfg) w) \<noteq> Inr ()
              then out = Threw (MkdirError (outputDir cfg))
              else if spriteUpToDate (map iconName files) (content_or_empty w (spriteFilepath cfg))
                 \<and> typesUpToDate (map iconName files) (content_or_empty w (typeOutputFilepath cfg))
              then out = UpToDate
              else out = Threw NoSvgElement \<or> (\<exists>p. out = Threw (ReadError p))))"
proof -
  have gen: "case generateSvgSprite env files (inputDir cfg) outputPath opt w of (r, w') \<Rightarrow>
            (r = Inl NoSvgElement \<or> (\<exists>p. r = Inl (ReadError p)))
          \<and> fs w' = fs w \<and> filter is_write (events_since w w') = []"
    by (rule generateSvgSprite_malformed[OF assms, of outputPath opt])
       (auto simp: events_since_append)
  have ne: "files \<noteq> []" using assms(1) by auto
  let ?w0 = "emit (Mkdir (outputDir cfg)) w"
  let ?w2 = "emit (ReadFile (typeOutputFilepath cfg)) (emit (ReadFile (spriteFilepath cfg)) ?w0)"
  let ?up = "spriteUpToDate (map iconName files) (content_or_empty w (spriteFilepath cfg))
                 \<and> typesUpToDate (map iconName files) (content_or_empty w (typeOutputFilepath cfg))"
  let ?fails = "outputDir cfg \<in> unwritable w \<and> \<not> holds_file w (outputDir cfg)"
  have m: "(fst (mkdirSync (outputDir cfg) w) \<noteq> Inr ()) = ?fails"
    by (simp add: mkdirSync_def)
  have in2: "fs ?w2 (path_join (inputDir cfg) file) = Some input" using assms(2) by simp
  obtain e w' evs where
    g: "generateSvgSprite env files (inputDir cfg) (spriteFilepath cfg) (shouldOptimize cfg) ?w2 = (Inl e, w')"
    and e: "e = NoSvgElement \<or> (\<exists>p. e = ReadError p)"
    and f: "fs w' = fs ?w2" and t: "trace w' = trace ?w2 @ evs" and n: "filter is_write evs = []"
    by (rule generateSvgSprite_malformed[OF assms(1) in2 assms(3)])
  have b: "build env cfg files w =
      (if ?fails then (Threw (MkdirError (outputDir cfg)), ?w0)
       else if ?up then (UpToDate, ?w2) else (Threw e, w'))"
    using ne g by (auto simp add: build_def mkdirSync_def readFileOrEmpty_def Let_def)
  have "events_since w ?w0 = [Mkdir (outputDir cfg)]"
    by (rule events_since_append) simp
  moreover have "events_since w ?w2 = [Mkdir (outputDir cfg), ReadFile (spriteFilepath cfg),
      ReadFile (typeOutputFilepath cfg)]"
    by (rule events_since_append) simp
  moreover have "events_since w w' = [Mkdir (outputDir cfg), ReadFile (spriteFilepath cfg),
      ReadFile (typeOutputFilepath cfg)] @ evs"
    by (rule events_since_append) (simp add: t)
  ultimately have "case build env cfg files w of (out, w') \<Rightarrow>
            fs w' = fs w \<and> filter is_write (events_since w w') = []
          \<and> (if fst (mkdirSync (outputDir cfg) w) \<noteq> Inr ()
              then out = Threw (MkdirError (outputDir cfg))
              else if ?up then out = UpToDate
              else out = Threw NoSvgElement \<or> (\<exists>p. out = Threw (ReadError p)))"
    unfolding m using b e f n by auto
  with gen show ?thesis by blast
qed

theorem malformed_svg_aborts_witness:
  "''bad.svg'' \<in> set [''a.svg'', ''bad.svg'']
   \<and> fs example_world (path_join (inputDir example_cfg) ''bad.svg'') = Some ''<p>no icon</p>''
   \<and> parse_svg example_env ''<p>no icon</p>'' = None
   \<and> fst (build example_env example_cfg [''a.svg'', ''bad.svg''] example_world) = Threw NoSvgElement
   \<and> fs (snd (build example_env example_cfg [''a.svg'', ''bad.svg''] example_world)) = fs example_world
   \<and> filter is_write (events_since example_world
         (snd (build example_env example_cfg [''a.svg'', ''bad.svg''] example_world))) = []
   \<and> fs blocked_world (path_join (inputDir example_cfg) ''bad.svg'') = Some ''<p>no icon</p>''
   \<and> fst (build example_env example_cfg [''a.svg'', ''bad.svg''] blocked_world)
       = Threw (MkdirError ''/app/out'')
   \<and> fs (snd (build example_env example_cfg [''a.svg'', ''bad.svg''] blocked_world)) = fs blocked_world"
proof -
  let ?files = "[''a.svg'', ''bad.svg'']"
  have h1: "''bad.svg'' \<in> set ?files" by simp
  have h2: "fs example_world (path_join (inputDir example_cfg) ''bad.svg'') = Some ''<p>no icon</p>''"
    by (simp add: example_paths example_joins example_world_def)
  have h2': "fs blocked_world (path_join (inputDir example_cfg) ''bad.svg'') = Some ''<p>no icon</p>''"
    by (simp add: example_paths example_joins example_world_def blocked_world_def)
  have h3: "parse_svg example_env ''<p>no icon</p>'' = None"
    by (simp add: example_env_def example_parse_def)
  have nup: "\<not> spriteUpToDate (map iconName ?files)
      (content_or_empty example_world (spriteFilepath example_cfg))"
    by (simp add: spriteUpToDate_def content_or_empty_def example_paths example_world_def)
  have ok: "fst (mkdirSync (outputDir example_cfg) example_world) = Inr ()"
    by (simp add: mkdirSync_writable example_unwritable)
  have "fs example_world (path_join ''/app/svg'' ''a.svg'')
      = Some ''<svg width=\"10\" viewBox=\"0 0 10 10\"><path d=\"M0 0\"/></svg>''"
    by (simp add: example_world_def example_joins)
  moreover have "parse_svg example_env ''<svg width=\"10\" viewBox=\"0 0 10 10\"><path d=\"M0 0\"/></svg>''
      \<noteq> None"
    by (simp add: example_env_def example_parse_def)
  ultimately have "fst (symbols_of example_env ''/app/svg'' ?files example_world) = Inl NoSvgElement"
    using h2 h3 by (auto simp: Let_def example_paths split: option.splits)
  then have sc: "sprite_content example_env example_cfg ?files example_world = Inl NoSvgElement"
    by (simp add: sprite_content_def example_paths del: symbols_of.simps)
  have nf: "\<not> (outputDir example_cfg \<in> unwritable example_world
      \<and> \<not> holds_file example_world (outputDir example_cfg))"
    by (simp add: example_unwritable)
  from build_split[OF _ nf, of ?files example_env] nup sc
  have thrown: "fst (build example_env example_cfg ?files example_world) = Threw NoSvgElement"
    by auto
  have "\<not> holds_file blocked_world ''/app/out''"
    by (simp add: holds_file_def blocked_world_def example_world_def basename_def plain_name_def
        path_join_def normalize_def split_path_def)
  then have fails: "fst (mkdirSync (outputDir example_cfg) blocked_world) \<noteq> Inr ()"
    by (simp add: mkdirSync_def blocked_world_def example_cfg_def)
  have out: "outputDir example_cfg = ''/app/out''" by (simp add: example_cfg_def)
  from malformed_svg_aborts [OF h1 h2 h3, of "spriteFilepath example_cfg" False]
    malformed_svg_aborts [OF h1 h2' h3, of "spriteFilepath example_cfg" False]
    h1 h2 h2' h3 nup ok fails thrown
  show ?thesis by (simp add: split_beta out)
qed

text \<open>
  As stated for every build the claim fails: with output files that satisfy the up-to-date
  check, a list that holds a file without \<^verbatim>\<open>svg\<close> element is not even read; the build
  returns as up to date and nothing is thrown.
\<close>

theorem malformed_svg_counterexample:
  "''b.svg'' \<in> set [''a.svg'', ''b.svg'']
   \<and> fs stale_world (path_join (inputDir example_cfg) ''b.svg'') = Some ''<p>no icon</p>''
   \<and> parse_svg example_env ''<p>no icon</p>'' = None
   \<and> fst (build example_env example_cfg [''a.svg'', ''b.svg''] stale_world) = UpToDate
   \<and> events_since stale_world (snd (build example_env example_cfg [''a.svg'', ''b.svg''] stale_world))
       = [Mkdir ''/app/out'', ReadFile ''/app/out/sprite.svg'', ReadFile ''/app/out/name.d.ts'']"
proof -
  have up: "spriteUpToDate (map iconName [''a.svg'', ''b.svg''])
      (content_or_empty stale_world (spriteFilepath example_cfg))"
    "typesUpToDate (map iconName [''a.svg'', ''b.svg''])
      (content_or_empty stale_world (typeOutputFilepath example_cfg))"
    by (simp_all add: spriteUpToDate_def typesUpToDate_def content_or_empty_def example_paths
        stale_world_def)
  have "build example_env example_cfg [''a.svg'', ''b.svg''] stale_world =
      (UpToDate, stale_world\<lparr>trace := trace stale_world @ [Mkdir (outputDir example_cfg),
         ReadFile (spriteFilepath example_cfg), ReadFile (typeOutputFilepath example_cfg)]\<rparr>)"
    using up by (rule build_short_circuit) simp
  moreover have "fs stale_world (path_join (inputDir example_cfg) ''b.svg'') = Some ''<p>no icon</p>''"
    by (simp add: example_paths example_joins stale_world_def)
  moreover have "parse_svg example_env ''<p>no icon</p>'' = None"
    by (simp add: example_env_def example_parse_def)
  ultimately show ?thesis
    by (simp add: events_since_def example_paths) (simp add: example_cfg_def)
qed

section \<open>Idempotence of the build\<close>

text \<open>
  C1. Run the build twice in a row on the same file list (the glob finds the same files both
  times) and configuration, no source file being one of the three output files, so that the
  first run leaves the sources as they were. The paths are compared as \<^verbatim>\<open>path.join\<close> returns
  them: an output directory given with a trailing slash, or inside the input directory, is
  recognised. The second run changes no file and performs no write; if it generates, the
  three calls of \<^verbatim>\<open>writeIfChanged\<close> (sprite, manifest, README) all return false; and after a
  first run that generated, the second either returns as up to date or generates with three
  times false. Unique icon names are not needed.
\<close>

theorem build_twice_writes_nothing:
  assumes inputs: "\<forall>file \<in> set files. path_join (inputDir cfg) file
      \<notin> {spriteFilepath cfg, typeOutputFilepath cfg, readmeFilepath cfg}"
  shows "case build env cfg files w of (out1, w1) \<Rightarrow>
          (case build env cfg files w1 of (out2, w2) \<Rightarrow>
             fs w2 = fs w1
           \<and> filter is_write (events_since w1 w2) = []
           \<and> (\<forall>a b c. out2 = Generated a b c \<longrightarrow> \<not> a \<and> \<not> b \<and> \<not> c)
           \<and> (\<forall>a b c. out1 = Generated a b c \<longrightarrow>
                 out2 = UpToDate \<or> out2 = Generated False False False))"
proof (cases "files = []")
  case True
  then show ?thesis by (simp add: build_def events_since_def)
next
  case False
  let ?up = "\<lambda>w. spriteUpToDate (map iconName files) (content_or_empty w (spriteFilepath cfg))
              \<and> typesUpToDate (map iconName files) (content_or_empty w (typeOutputFilepath cfg))"
  let ?fails = "\<lambda>w. outputDir cfg \<in> unwritable w \<and> \<not> holds_file w (outputDir cfg)"
  obtain out1 w1 where r1: "build env cfg files w = (out1, w1)"
    by (cases "build env cfg files w")
  obtain out2 w2 where r2: "build env cfg files w1 = (out2, w2)"
    by (cases "build env cfg files w1")
  have goal: "fs w2 = fs w1 \<and> filter is_write (events_since w1 w2) = []
           \<and> (\<forall>a b c. out2 = Generated a b c \<longrightarrow> \<not> a \<and> \<not> b \<and> \<not> c)
           \<and> (\<forall>a b c. out1 = Generated a b c \<longrightarrow>
                 out2 = UpToDate \<or> out2 = Generated False False False)"
  proof (cases "?fails w")
    case True
    with build_mkdir_fails[OF False, of cfg w env] r1
    have 1: "out1 = Threw (MkdirError (outputDir cfg))" "w1 = emit (Mkdir (outputDir cfg)) w"
      by simp_all
    with True have "?fails w1" by simp
    with build_mkdir_fails[OF False, of cfg w1 env] r2
    have 2: "out2 = Threw (MkdirError (outputDir cfg))" "w2 = emit (Mkdir (outputDir cfg)) w1"
      by simp_all
    have "events_since w1 w2 = [Mkdir (outputDir cfg)]"
      by (rule events_since_append) (simp add: 2)
    with 1 2 show ?thesis by simp
  next
    case nf: False
    from build_split[OF False nf, of env] r1 obtain wx where
      wx: "fs wx = fs w" "unwritable wx = unwritable w"
      and b1: "(out1, w1) =
            (if ?up w then (UpToDate, wx)
             else case sprite_content env cfg files w of
                    Inl e \<Rightarrow> (Threw e, wx)
                  | Inr output \<Rightarrow> write_outputs cfg files output wx)"
      by auto
    have frame: "unwritable w1 = unwritable wx
        \<and> (\<forall>q. q \<notin> {spriteFilepath cfg, typeOutputFilepath cfg, readmeFilepath cfg} \<longrightarrow> fs w1 q = fs wx q)
        \<and> (\<forall>q. fs wx q \<noteq> None \<longrightarrow> fs w1 q \<noteq> None)"
    proof (cases "?up w \<or> (\<exists>e. sprite_content env cfg files w = Inl e)")
      case True
      with b1 have "w1 = wx" by (auto split: if_splits)
      then show ?thesis by simp
    next
      case False
      then obtain c where "sprite_content env cfg files w = Inr c"
        by (cases "sprite_content env cfg files w") auto
      with False b1 have "write_outputs cfg files c wx = (out1, w1)" by (auto split: if_splits)
      from write_outputs_frame[OF this] show ?thesis by blast
    qed
    have nf1: "\<not> ?fails w1"
    proof (cases "outputDir cfg \<in> unwritable w")
      case True
      with nf have "holds_file w (outputDir cfg)" by simp
      then have "holds_file w1 (outputDir cfg)"
        by (rule holds_file_mono) (use frame wx in auto)
      then show ?thesis by simp
    next
      case False
      with frame wx show ?thesis by simp
    qed
    from build_split[OF False nf1, of env] r2 obtain vx evs where
      vx: "fs vx = fs w1" "unwritable vx = unwritable w1" "trace vx = trace w1 @ evs"
        "filter is_write evs = []"
      and b2: "(out2, w2) =
            (if ?up w1 then (UpToDate, vx)
             else case sprite_content env cfg files w1 of
                    Inl e \<Rightarrow> (Threw e, vx)
                  | Inr output \<Rightarrow> write_outputs cfg files output vx)"
      by auto
    have same: "sprite_content env cfg files w1 = sprite_content env cfg files w"
      by (rule sprite_content_cong) (use inputs frame wx in auto)
    show ?thesis
    proof (cases "?up w1")
      case True
      with b2 have "out2 = UpToDate" "w2 = vx" by simp_all
      with vx show ?thesis by (simp add: events_since_append)
    next
      case nup: False
      show ?thesis
      proof (cases "sprite_content env cfg files w")
        case (Inl e)
        with nup b2 same have o2: "out2 = Threw e" "w2 = vx" by (auto split: if_splits)
        from Inl b1 have "out1 = UpToDate \<or> out1 = Threw e" by (auto split: if_splits)
        with o2 vx show ?thesis by (auto simp: events_since_append)
      next
        case (Inr c)
        have "\<not> ?up w"
        proof
          assume u: "?up w"
          with b1 have "w1 = wx" by simp
          with wx have "fs w1 = fs w" by simp
          then have "content_or_empty w1 (spriteFilepath cfg) = content_or_empty w (spriteFilepath cfg)"
            "content_or_empty w1 (typeOutputFilepath cfg) = content_or_empty w (typeOutputFilepath cfg)"
            by (simp_all add: content_or_empty_def)
          with u nup show False by auto
        qed
        with Inr b1 have run1: "write_outputs cfg files c wx = (out1, w1)"
          by (auto split: if_splits)
        from nup Inr b2 same have run2: "write_outputs cfg files c vx = (out2, w2)"
          by (auto split: if_splits)
        from write_outputs_rerun[OF run1, of vx] vx frame run2 obtain evs' where
          o2: "out2 = (case out1 of Generated a b c \<Rightarrow> Generated False False False | other \<Rightarrow> other)"
          and w2: "fs w2 = fs vx" "trace w2 = trace vx @ evs'" "filter is_write evs' = []"
          by auto
        have "trace w2 = trace w1 @ (evs @ evs')" using w2 vx by simp
        then have "events_since w1 w2 = evs @ evs'" by (rule events_since_append)
        moreover from write_outputs_outcome[OF run1] o2
        have "(\<forall>a b c. out2 = Generated a b c \<longrightarrow> \<not> a \<and> \<not> b \<and> \<not> c)
             \<and> (\<forall>a b c. out1 = Generated a b c \<longrightarrow>
                   out2 = UpToDate \<or> out2 = Generated False False False)"
          by auto
        ultimately show ?thesis using w2 vx by auto
      qed
    qed
  qed
  show ?thesis unfolding r1 r2 prod.case by (rule goal)
qed

theorem build_twice_writes_nothing_witness:
  "path_join (inputDir example_cfg) ''a.svg'' \<noteq> spriteFilepath example_cfg
   \<and> path_join (inputDir example_cfg) ''a.svg'' \<noteq> typeOutputFilepath example_cfg
   \<and> path_join (inputDir example_cfg) ''a.svg'' \<noteq> readmeFilepath example_cfg
   \<and> fst (build example_env example_cfg [''a.svg''] example_world) = Generated True True True
   \<and> fst (build example_env example_cfg [''a.svg'']
         (snd (build example_env example_cfg [''a.svg''] example_world)))
       = Generated False False False
   \<and> fs (snd (build example_env example_cfg [''a.svg'']
         (snd (build example_env example_cfg [''a.svg''] example_world))))
       = fs (snd (build example_env example_cfg [''a.svg''] example_world))
   \<and> filter is_write (events_since (snd (build example_env example_cfg [''a.svg''] example_world))
         (snd (build example_env example_cfg [''a.svg'']
           (snd (build example_env example_cfg [''a.svg''] example_world))))) = []"
proof -
  have h: "\<forall>file \<in> set [''a.svg'']. path_join (inputDir example_cfg) file
      \<notin> {spriteFilepath example_cfg, typeOutputFilepath example_cfg, readmeFilepath example_cfg}"
    by (simp add: example_paths example_joins)
  have 1: "fst (build example_env example_cfg [''a.svg''] example_world) = Generated True True True"
    by (simp add: example_run1)
  from build_twice_writes_nothing [OF h, of example_env example_world] h 1 example_run2
  show ?thesis by (simp add: split_beta)
qed

section \<open>The check on a sprite the tool wrote\<close>




lemma example_symbols_of_t:
  assumes "fs w ''/app/svg/t.svg'' = fs example_world ''/app/svg/t.svg''"
  shows "symbols_of example_env ''/app/svg'' [''t.svg''] w
     = (Inr [''<symbol id=\"t\"><title>id=t</title></symbol>''],
        emit (Parse ''t.svg'') (emit (ReadFile ''/app/svg/t.svg'') w))"
proof -
  have 1: "fs w (path_join ''/app/svg'' ''t.svg'') = Some ''<svg><title>id=t</title></svg>''"
    using assms by (simp add: example_world_def example_joins)
  have 2: "parse_svg example_env ''<svg><title>id=t</title></svg>''
    = Some \<lparr>tagName = ''svg'', attrs = [], innerHTML = ''<title>id=t</title>''\<rparr>"
    by (simp add: example_env_def example_parse_def)
  have 3: "toSymbol example_env ''t.svg'' \<lparr>tagName = ''svg'', attrs = [], innerHTML = ''<title>id=t</title>''\<rparr>
    = ''<symbol id=\"t\"><title>id=t</title></symbol>''"
    by (simp add: toSymbol_def symbolElement_def setAttribute_def removeAttribute_def
        example_env_def trim_def is_ws_def AList.delete_eq element_toString_def rawAttrs_def
        attribute_text_plain plain_value_def toLowerCase_def to_lower_def)
  show ?thesis
    by (simp add: 1 2 3 Let_def) (simp add: example_joins)
qed












lemma sublist_join: "x \<in> set xs \<Longrightarrow> sublist x (join sep xs)"
proof (induction sep xs rule: join.induct)
  case (1 sep)
  then show ?case by simp
next
  case (2 sep x)
  then show ?case by simp
next
  case (3 sep y z zs)
  show ?case
  proof (cases "x = y")
    case True
    then show ?thesis by simp
  next
    case False
    with 3 have "sublist x (join sep (z # zs))" by simp
    then have "sublist x ((y @ sep) @ join sep (z # zs))"
      by (metis sublist_append)
    then show ?thesis by simp
  qed
qed

















section \<open>The manifest\<close>

lemma hex_digit_inj: "hex_digit m = hex_digit n \<Longrightarrow> m mod 16 = n mod 16"
proof -
  assume "hex_digit m = hex_digit n"
  moreover have "distinct ''0123456789abcdef''" by simp
  moreover have "m mod 16 < length ''0123456789abcdef''" "n mod 16 < length ''0123456789abcdef''"
    by simp_all
  ultimately show ?thesis
    unfolding hex_digit_def by (simp only: nth_eq_iff_index_eq)
qed

lemma hex_digit_plain: "hex_digit n \<noteq> CHR 0x22" "hex_digit n \<noteq> CHR 0x5C"
  using hex_digit_in[of n] by auto

lemma json_escape_shape:
  "json_escape c = [c] \<and> c \<noteq> CHR 0x22 \<and> c \<noteq> CHR 0x5C \<and> \<not> (of_char c :: nat) < 0x20
   \<or> (\<exists>e. json_escape c = [CHR 0x5C, e] \<and> e \<noteq> CHR ''u'')
   \<or> json_escape c = [CHR 0x5C, CHR ''u'', CHR ''0'', CHR ''0'',
         hex_digit (of_char c div 16), hex_digit (of_char c mod 16)] \<and> (of_char c :: nat) < 0x20"
  by (simp add: json_escape_def)

lemma json_escape_short_inj:
  assumes "json_escape c = [CHR 0x5C, e]" "json_escape d = [CHR 0x5C, e]"
  shows "c = d"
  using assms by (auto simp: json_escape_def split: if_splits)

lemma json_escape_long_inj:
  assumes "(of_char c :: nat) < 0x20" "(of_char d :: nat) < 0x20"
    and "hex_digit (of_char c div 16) = hex_digit (of_char d div 16)"
    and "hex_digit (of_char c mod 16) = hex_digit (of_char d mod 16)"
  shows "c = d"
proof -
  have "(of_char c :: nat) div 16 < 16" "(of_char d :: nat) div 16 < 16" using assms(1,2) by auto
  with hex_digit_inj[OF assms(3)] have "(of_char c :: nat) div 16 = of_char d div 16" by simp
  moreover from hex_digit_inj[OF assms(4)] have "(of_char c :: nat) mod 16 = of_char d mod 16" by simp
  ultimately have "(of_char c :: nat) = of_char d" by (metis div_mult_mod_eq)
  then show ?thesis by simp
qed

lemma json_escape_prefix_free:
  assumes "json_escape c @ r = json_escape d @ r'"
  shows "c = d \<and> r = r'"
proof -
  consider (plain) "json_escape c = [c]" "c \<noteq> CHR 0x22" "c \<noteq> CHR 0x5C"
    | (short) e where "json_escape c = [CHR 0x5C, e]" "e \<noteq> CHR ''u''"
    | (long) "json_escape c = [CHR 0x5C, CHR ''u'', CHR ''0'', CHR ''0'',
         hex_digit (of_char c div 16), hex_digit (of_char c mod 16)]" "(of_char c :: nat) < 0x20"
    using json_escape_shape[of c] by blast
  then show ?thesis
  proof cases
    case plain
    with assms json_escape_shape[of d] show ?thesis by auto
  next
    case short
    with assms json_escape_shape[of d] have "json_escape d = [CHR 0x5C, e]" by auto
    with short assms json_escape_short_inj[of c e d] show ?thesis by simp
  next
    case long
    with assms json_escape_shape[of d] have
      d: "json_escape d = [CHR 0x5C, CHR ''u'', CHR ''0'', CHR ''0'',
         hex_digit (of_char d div 16), hex_digit (of_char d mod 16)]" "(of_char d :: nat) < 0x20"
      by auto
    with long assms have "hex_digit (of_char c div 16) = hex_digit (of_char d div 16)"
      "hex_digit (of_char c mod 16) = hex_digit (of_char d mod 16)" "r = r'"
      by simp_all
    with json_escape_long_inj[OF long(2) d(2)] show ?thesis by simp
  qed
qed

lemma json_escape_not_quote: "json_escape c @ r \<noteq> CHR 0x22 # r'"
  using json_escape_shape[of c] by auto

lemma json_body_inj:
  "concat (map json_escape s) @ [CHR 0x22] = concat (map json_escape t) @ [CHR 0x22] \<Longrightarrow> s = t"
proof (induction s arbitrary: t)
  case Nil
  then show ?case
  proof (cases t)
    case (Cons d t')
    with Nil json_escape_not_quote[of d "concat (map json_escape t') @ [CHR 0x22]" "[]"]
    show ?thesis by simp
  qed simp
next
  case (Cons c s)
  show ?case
  proof (cases t)
    case Nil
    with Cons.prems json_escape_not_quote[of c "concat (map json_escape s) @ [CHR 0x22]" "[]"]
    show ?thesis by simp
  next
    case (Cons d t')
    with Cons.prems have "json_escape c @ (concat (map json_escape s) @ [CHR 0x22])
        = json_escape d @ (concat (map json_escape t') @ [CHR 0x22])" by simp
    from json_escape_prefix_free[OF this] Cons.IH[of t'] Cons show ?thesis by simp
  qed
qed

lemma JSON_stringify_inj: "JSON_stringify s = JSON_stringify t \<Longrightarrow> s = t"
  by (rule json_body_inj) (simp add: JSON_stringify_def)

lemma mset_insert_by: "mset (insert_by compare a bs) = add_mset a (mset bs)"
  by (induction bs) auto

lemma mset_sort_files: "mset (sort_files compare found) = mset found"
  unfolding sort_files_def by (induction found) (auto simp: mset_insert_by)

lemma set_insert_by: "set (insert_by compare a bs) = insert a (set bs)"
  by (induction bs) auto

lemma sorted_insert_by:
  assumes total: "\<And>a b. compare a b \<le> 0 \<or> compare b a \<le> 0"
    and trans: "\<And>a b c. compare a b \<le> 0 \<Longrightarrow> compare b c \<le> 0 \<Longrightarrow> compare a c \<le> 0"
  shows "sorted_wrt (\<lambda>a b. compare a b \<le> 0) bs \<Longrightarrow>
    sorted_wrt (\<lambda>a b. compare a b \<le> 0) (insert_by compare x bs)"
proof (induction bs)
  case Nil
  then show ?case by simp
next
  case (Cons b bs)
  from Cons.prems have tail: "sorted_wrt (\<lambda>a b. compare a b \<le> 0) bs"
    and below: "\<And>y. y \<in> set bs \<Longrightarrow> compare b y \<le> 0"
    by simp_all
  show ?case
  proof (cases "compare x b \<le> 0")
    case True
    have "compare x y \<le> 0" if "y \<in> set bs" for y
      using trans[OF True below[OF that]] .
    with True Cons.prems show ?thesis by simp
  next
    case False
    with total[of x b] have bx: "compare b x \<le> 0" by simp
    have "compare b y \<le> 0" if "y \<in> set (insert_by compare x bs)" for y
      using that bx below by (auto simp only: set_insert_by insert_iff)
    with False Cons.IH[OF tail] show ?thesis by simp
  qed
qed

lemma sorted_sort_files:
  assumes "\<And>a b. compare a b \<le> 0 \<or> compare b a \<le> 0"
    and "\<And>a b c. compare a b \<le> 0 \<Longrightarrow> compare b c \<le> 0 \<Longrightarrow> compare a c \<le> 0"
  shows "sorted_wrt (\<lambda>a b. compare a b \<le> 0) (sort_files compare found)"
proof (induction found)
  case Nil
  show ?case by (simp add: sort_files_def)
next
  case (Cons a found)
  have "sort_files compare (a # found) = insert_by compare a (sort_files compare found)"
    by (simp add: sort_files_def)
  with sorted_insert_by[of compare, OF assms Cons] show ?case by simp
qed

lemma example_symbols_of_at:
  assumes "fs w = fs example_world"
  shows "symbols_of example_env ''/app/svg'' [''a.svg'', ''t.svg''] w
     = (Inr [''<symbol viewBox=\"0 0 10 10\" id=\"a\"><path d=\"M0 0\"></path></symbol>'',
             ''<symbol id=\"t\"><title>id=t</title></symbol>''],
        emit (Parse ''t.svg'') (emit (ReadFile ''/app/svg/t.svg'')
          (emit (Parse ''a.svg'') (emit (ReadFile ''/app/svg/a.svg'') w))))"
proof -
  let ?w1 = "emit (Parse ''a.svg'') (emit (ReadFile ''/app/svg/a.svg'') w)"
  have a: "symbols_of example_env ''/app/svg'' [''a.svg''] w
      = (Inr [''<symbol viewBox=\"0 0 10 10\" id=\"a\"><path d=\"M0 0\"></path></symbol>''], ?w1)"
    using assms by (rule example_symbols_of)
  have t: "symbols_of example_env ''/app/svg'' [''t.svg''] ?w1
      = (Inr [''<symbol id=\"t\"><title>id=t</title></symbol>''],
         emit (Parse ''t.svg'') (emit (ReadFile ''/app/svg/t.svg'') ?w1))"
    by (rule example_symbols_of_t) (simp add: assms)
  from a t show ?thesis
    by (auto simp: Let_def split: option.splits sum.splits prod.splits)
qed

lemma example_run_at:
  "fst (build example_env example_cfg [''a.svg'', ''t.svg''] example_world) = Generated True True True"
proof -
  have s: "symbols_of example_env ''/app/svg'' [''a.svg'', ''t.svg''] w
     = (Inr [''<symbol viewBox=\"0 0 10 10\" id=\"a\"><path d=\"M0 0\"></path></symbol>'',
             ''<symbol id=\"t\"><title>id=t</title></symbol>''],
        emit (Parse ''t.svg'') (emit (ReadFile ''/app/svg/t.svg'')
          (emit (Parse ''a.svg'') (emit (ReadFile ''/app/svg/a.svg'') w))))"
    if "fs w = fs example_world" for w
    using that by (rule example_symbols_of_at)
  have ne: "sprite_document syms \<noteq> []" "typeOutputContent ns \<noteq> []" "readmeContent \<noteq> []" for syms ns
    by (simp_all add: sprite_document_nonempty typeOutputContent_nonempty readmeContent_def)
  have ne': "[] \<noteq> sprite_document syms" "[] \<noteq> typeOutputContent ns" "[] \<noteq> readmeContent" for syms ns
    using ne(1)[of syms] ne(2)[of ns] ne(3) by auto
  have fs0: "fs example_world ''/app/out/sprite.svg'' = None" "fs example_world ''/app/out/name.d.ts'' = None"
    "fs example_world ''/app/out/README.md'' = None"
    by (simp_all add: example_world_def)
  show ?thesis
    by (simp add: build_def mkdirSync_writable example_unwritable readFileOrEmpty_def Let_def generateSvgSprite_def s
        spriteUpToDate_def typesUpToDate_def writeIfChanged_cases content_or_empty_def
        spriteFilepath_def typeOutputFilepath_def readmeFilepath_def example_joins example_cfg_def
        fs0 ne ne' emit_def
        del: symbols_of.simps)
qed

lemma example_compare_total: "example_compare a b \<le> 0 \<or> example_compare b a \<le> 0"
  by (simp add: example_compare_def) linarith

lemma example_compare_trans:
  "example_compare a b \<le> 0 \<Longrightarrow> example_compare b c \<le> 0 \<Longrightarrow> example_compare a c \<le> 0"
  by (simp add: example_compare_def)

text \<open>
  C7. The file list is the stable sort, by the comparison given, of what the glob found: the
  same files, each as often as found, in sorted order when the comparison is a total
  preorder. The icon name of a file is its relative path without the trailing \<^verbatim>\<open>.svg\<close>.
  The manifest is the header, then the icon names of the files as JSON string literals, in
  the order of the file list, joined by newline, tab and bar, then the closing semicolon;
  there is one literal per file (nothing is deduplicated), each is enclosed in double quotes
  and contains no newline, so each is on a line of its own, and different names give
  different literals. A build that generates leaves this content in the manifest file.
\<close>

theorem manifest_lists_icon_names:
  "(let files = sort_files localeCompare found in
      mset files = mset found
    \<and> ((\<forall>a b. localeCompare a b \<le> 0 \<or> localeCompare b a \<le> 0)
        \<and> (\<forall>a b c. localeCompare a b \<le> 0 \<and> localeCompare b c \<le> 0 \<longrightarrow> localeCompare a c \<le> 0)
        \<longrightarrow> sorted_wrt (\<lambda>a b. localeCompare a b \<le> 0) files)
    \<and> typeOutputContent (map iconName files) =
        ''// This file is generated by npm run build:icons\<newline>  \<newline>  export type IconName =\<newline>  ''
        @ [CHR 0x09] @ ''| ''
        @ join (''\<newline>'' @ [CHR 0x09] @ ''| '') (map (\<lambda>file. JSON_stringify (iconName file)) files)
        @ '';\<newline>  ''
    \<and> length (map (\<lambda>file. JSON_stringify (iconName file)) files) = length files
    \<and> (\<forall>a b c w'. build env cfg files w = (Generated a b c, w') \<longrightarrow>
         fs w' (typeOutputFilepath cfg) = Some (typeOutputContent (map iconName files))))
   \<and> iconName (base @ ''.svg'') = base
   \<and> (\<forall>name. hd (JSON_stringify name) = CHR 0x22 \<and> last (JSON_stringify name) = CHR 0x22
        \<and> CHR ''\<newline>'' \<notin> set (JSON_stringify name))
   \<and> (\<forall>name name'. JSON_stringify name = JSON_stringify name' \<longrightarrow> name = name')"
proof -
  define files where "files = sort_files localeCompare found"
  have written: "fs w' (typeOutputFilepath cfg) = Some (typeOutputContent (map iconName files))"
    if "build env cfg files w = (Generated a b c, w')" for a b c w'
  proof -
    from that obtain w3 w4 where
      t: "writeIfChanged (typeOutputFilepath cfg) (typeOutputContent (map iconName files)) w3 = (Inr b, w4)"
      and r: "writeIfChanged (readmeFilepath cfg) readmeContent w4 = (Inr c, w')"
      by (rule build_Generated)
    from writeIfChanged_Inr(1)[OF t] typeOutputContent_nonempty
    have "fs w4 (typeOutputFilepath cfg) = Some (typeOutputContent (map iconName files))"
      by (rule content_nonempty_file)
    with writeIfChanged_Inr(2)[OF r output_paths_distinct(3)] show ?thesis by simp
  qed
  have content: "typeOutputContent (map iconName files) =
       ''// This file is generated by npm run build:icons\<newline>  \<newline>  export type IconName =\<newline>  ''
       @ [CHR 0x09] @ ''| ''
       @ join (''\<newline>'' @ [CHR 0x09] @ ''| '') (map (\<lambda>file. JSON_stringify (iconName file)) files)
       @ '';\<newline>  ''"
    by (simp add: typeOutputContent_def comp_def)
  have perm: "mset files = mset found"
    unfolding files_def by (rule mset_sort_files)
  have sorted: "(\<forall>a b. localeCompare a b \<le> 0 \<or> localeCompare b a \<le> 0)
        \<and> (\<forall>a b c. localeCompare a b \<le> 0 \<and> localeCompare b c \<le> 0 \<longrightarrow> localeCompare a c \<le> 0)
        \<longrightarrow> sorted_wrt (\<lambda>a b. localeCompare a b \<le> 0) files"
  proof (intro impI)
    assume a: "(\<forall>a b. localeCompare a b \<le> 0 \<or> localeCompare b a \<le> 0)
        \<and> (\<forall>a b c. localeCompare a b \<le> 0 \<and> localeCompare b c \<le> 0 \<longrightarrow> localeCompare a c \<le> 0)"
    show "sorted_wrt (\<lambda>a b. localeCompare a b \<le> 0) files"
      unfolding files_def by (rule sorted_sort_files) (use a in blast)+
  qed
  have len: "length (map (\<lambda>file. JSON_stringify (iconName file)) files) = length files"
    by simp
  have lits: "\<forall>name. hd (JSON_stringify name) = CHR 0x22 \<and> last (JSON_stringify name) = CHR 0x22
        \<and> CHR ''\<newline>'' \<notin> set (JSON_stringify name)"
    by (simp add: JSON_stringify_one_line JSON_stringify_quoted)
  have inj: "\<forall>name name'. JSON_stringify name = JSON_stringify name' \<longrightarrow> name = name'"
    using JSON_stringify_inj by blast
  have wr: "\<forall>a b c w'. build env cfg files w = (Generated a b c, w') \<longrightarrow>
         fs w' (typeOutputFilepath cfg) = Some (typeOutputContent (map iconName files))"
    by (intro allI impI) (rule written)
  show ?thesis
    unfolding Let_def files_def[symmetric]
    by (intro conjI) (rule perm sorted content len wr iconName_svg lits inj)+
qed

theorem manifest_lists_icon_names_witness:
  "sort_files example_compare [''t.svg'', ''a.svg''] = [''a.svg'', ''t.svg'']
   \<and> mset [''a.svg'', ''t.svg''] = mset [''t.svg'', ''a.svg'']
   \<and> sorted_wrt (\<lambda>a b. example_compare a b \<le> 0) [''a.svg'', ''t.svg'']
   \<and> iconName (''a'' @ ''.svg'') = ''a''
   \<and> fst (build example_env example_cfg [''a.svg'', ''t.svg''] example_world) = Generated True True True
   \<and> fs (snd (build example_env example_cfg [''a.svg'', ''t.svg''] example_world))
         (typeOutputFilepath example_cfg)
       = Some (''// This file is generated by npm run build:icons\<newline>  \<newline>  export type IconName =\<newline>  ''
           @ [CHR 0x09] @ ''| \"a\"\<newline>'' @ [CHR 0x09] @ ''| \"t\";\<newline>  '')"
proof -
  let ?files = "[''a.svg'', ''t.svg'']"
  let ?b = "build example_env example_cfg ?files example_world"
  have srt: "sort_files example_compare [''t.svg'', ''a.svg''] = ?files"
    by (simp add: sort_files_def example_compare_def)
  have r1: "fst ?b = Generated True True True" by (rule example_run_at)
  then have r: "?b = (Generated True True True, snd ?b)" by (cases ?b) simp
  have consistent: "(\<forall>a b. example_compare a b \<le> 0 \<or> example_compare b a \<le> 0)
      \<and> (\<forall>a b c. example_compare a b \<le> 0 \<and> example_compare b c \<le> 0 \<longrightarrow> example_compare a c \<le> 0)"
    using example_compare_total example_compare_trans by blast
  note m = manifest_lists_icon_names [of example_compare "[''t.svg'', ''a.svg'']" example_env
      example_cfg example_world "''a''", unfolded srt Let_def]
  from m have perm: "mset ?files = mset [''t.svg'', ''a.svg'']" by blast
  from m consistent have sorted: "sorted_wrt (\<lambda>a b. example_compare a b \<le> 0) ?files" by blast
  from m r have "fs (snd ?b) (typeOutputFilepath example_cfg)
      = Some (typeOutputContent (map iconName ?files))"
    by blast
  moreover from m have "typeOutputContent (map iconName ?files) =
       ''// This file is generated by npm run build:icons\<newline>  \<newline>  export type IconName =\<newline>  ''
       @ [CHR 0x09] @ ''| ''
       @ join (''\<newline>'' @ [CHR 0x09] @ ''| '') (map (\<lambda>file. JSON_stringify (iconName file)) ?files)
       @ '';\<newline>  ''"
    by blast
  moreover have "JSON_stringify ''a'' = ''\"a\"''" "JSON_stringify ''t'' = ''\"t\"''"
    by (simp_all add: JSON_stringify_def json_escape_def)
  moreover from m have "iconName (''a'' @ ''.svg'') = ''a''" by blast
  ultimately have "fs (snd ?b) (typeOutputFilepath example_cfg)
       = Some (''// This file is generated by npm run build:icons\<newline>  \<newline>  export type IconName =\<newline>  ''
           @ [CHR 0x09] @ ''| \"a\"\<newline>'' @ [CHR 0x09] @ ''| \"t\";\<newline>  '')"
    and "iconName (''a'' @ ''.svg'') = ''a''"
    by simp_all
  with srt perm sorted r1 show ?thesis by (intro conjI)
qed

end
